theory Spec2Isabelle
  imports Main
begin

section \<open>Addresses, subnets and routes\<close>

text \<open>
  A \<^verbatim>\<open>net.IP\<close> is modelled by the number it denotes and a \<^verbatim>\<open>net.IPMask\<close> by the
  pair \<^verbatim>\<open>(ones, bits)\<close> that \<^verbatim>\<open>Mask.Size()\<close> returns for a CIDR mask.
  \<^verbatim>\<open>IP.Equal\<close> is equality of the numbers. Two things are left out: the nil address
  (an address is always a number here), and the length of the byte slice, so that
  \<^verbatim>\<open>IPAdd\<close> below is plain addition and does not wrap at the last address of the address
  space.
\<close>

type_synonym IP = int
type_synonym IPMask = "nat \<times> nat"

record IPNet =
  IP :: IP
  Mask :: IPMask

text \<open>
  Modelled from the spec: the helpers of the external library \<^verbatim>\<open>iputil\<close>
  (\<^verbatim>\<open>FirstAddr\<close>, \<^verbatim>\<open>LastAddr\<close>, \<^verbatim>\<open>NetworkID\<close>, \<^verbatim>\<open>IPAdd\<close>), whose code is
  not part of the repository. The network ID has all host bits zero, the broadcast address
  has all host bits one, and \<^verbatim>\<open>IPAdd\<close> adds an offset to an address and returns a
  fresh value. The random draw \<^verbatim>\<open>RandAddrWithExclude\<close> is a parameter of the model
  (a field of the environment below).
\<close>

definition hostBits :: "IPMask \<Rightarrow> nat" where
  "hostBits m = snd m - fst m"

definition FirstAddr :: "IPNet \<Rightarrow> IP" where
  "FirstAddr n = IP n - IP n mod 2 ^ hostBits (Mask n)"

definition LastAddr :: "IPNet \<Rightarrow> IP" where
  "LastAddr n = FirstAddr n + 2 ^ hostBits (Mask n) - 1"

definition NetworkID :: "IPNet \<Rightarrow> IPNet" where
  "NetworkID n = \<lparr>IP = FirstAddr n, Mask = Mask n\<rparr>"

definition IPAdd :: "IP \<Rightarrow> int \<Rightarrow> IP" where
  "IPAdd ip offset = ip + offset"

text \<open>Go's \<^verbatim>\<open>int\<close> is 64 bits wide and wraps; \<open>go_int\<close> is the wrap-around.\<close>

definition go_int :: "int \<Rightarrow> int" where
  "go_int i = (i + 2 ^ 63) mod 2 ^ 64 - 2 ^ 63"

text \<open>
  Errors. The source builds its errors with \<^verbatim>\<open>fmt.Errorf\<close>; the model keeps one
  constructor for each message and one for the \<^verbatim>\<open>%w\<close> wrapping of \<^verbatim>\<open>handlerr\<close>.
  \<open>Errno\<close> stands for an error returned by the netlink library, \<open>NilDereference\<close>
  for the panic of dereferencing a nil pointer.
\<close>

datatype error =
    NilIPNet
  | NetworkIDRequested
  | BroadcastRequested
  | AddressInUse
  | RouteVanished
  | RaceLost
  | ExhaustedSpace
  | InterfaceNotFound
  | Errno nat
  | NilDereference
  | Wrapped string error

fun cause :: "error \<Rightarrow> error" where
  "cause (Wrapped m e) = cause e"
| "cause e = e"

record NexthopInfo =
  nhLinkIndex :: int
  nhGw :: "IP option"

record Route =
  LinkIndex :: int
  Dst :: "IPNet option"
  Protocol :: int
  Gw :: "IP option"
  MultiPath :: "NexthopInfo list"

section \<open>The environment: netlink, the random draw, sleeping\<close>

text \<open>
  The netlink library and the kernel routing table behind it are external. They are a
  parameter of the model: a deterministic machine over a state \<open>'s\<close> of its own, which
  may change at every call (other hosts add and withdraw routes in the meantime).
\<close>

record 's env =
  ParseIPNet :: "string \<Rightarrow> error + IPNet"
  RouteListFiltered :: "IPNet \<Rightarrow> 's \<Rightarrow> (error + Route list) \<times> 's"
  RouteAdd :: "Route \<Rightarrow> 's \<Rightarrow> error option \<times> 's"
  RouteDel :: "Route \<Rightarrow> 's \<Rightarrow> error option \<times> 's"
  RouteGet :: "IP \<Rightarrow> 's \<Rightarrow> (error + Route list) \<times> 's"
  RandAddrWithExclude :: "IPNet \<Rightarrow> int \<Rightarrow> int \<Rightarrow> IP"

datatype event =
    EvRouteListFiltered IPNet "error + Route list"
  | EvRouteAdd Route "error option"
  | EvRouteDel Route "error option"
  | EvRouteGet IP "error + Route list"
  | EvSleep int

text \<open>
  The state a call runs in: the state of the environment, the calls made so far with their
  results (oldest first), and the store of the \<^verbatim>\<open>net.IPNet\<close> objects that pointers
  refer to. A \<^verbatim>\<open>time.Sleep\<close> is recorded among the calls, with its duration in
  nanoseconds. Logging is not modelled.
\<close>

record 's world =
  gw :: 's
  trace :: "event list"
  heap :: "nat \<Rightarrow> IPNet"

definition routeListFiltered ::
  "'s env \<Rightarrow> IPNet \<Rightarrow> 's world \<Rightarrow> (error + Route list) \<times> 's world" where
  "routeListFiltered nl dst w =
     (case RouteListFiltered nl dst (gw w) of
        (r, g) \<Rightarrow> (r, w\<lparr>gw := g, trace := trace w @ [EvRouteListFiltered dst r]\<rparr>))"

definition routeAdd :: "'s env \<Rightarrow> Route \<Rightarrow> 's world \<Rightarrow> error option \<times> 's world" where
  "routeAdd nl route w =
     (case RouteAdd nl route (gw w) of
        (r, g) \<Rightarrow> (r, w\<lparr>gw := g, trace := trace w @ [EvRouteAdd route r]\<rparr>))"

definition routeDel :: "'s env \<Rightarrow> Route \<Rightarrow> 's world \<Rightarrow> error option \<times> 's world" where
  "routeDel nl route w =
     (case RouteDel nl route (gw w) of
        (r, g) \<Rightarrow> (r, w\<lparr>gw := g, trace := trace w @ [EvRouteDel route r]\<rparr>))"

definition routeGet :: "'s env \<Rightarrow> IP \<Rightarrow> 's world \<Rightarrow> (error + Route list) \<times> 's world" where
  "routeGet nl ip w =
     (case RouteGet nl ip (gw w) of
        (r, g) \<Rightarrow> (r, w\<lparr>gw := g, trace := trace w @ [EvRouteGet ip r]\<rparr>))"

definition sleep :: "int \<Rightarrow> 's world \<Rightarrow> 's world" where
  "sleep d w = w\<lparr>trace := trace w @ [EvSleep d]\<rparr>"

definition Millisecond :: int where
  "Millisecond = 1000000"

text \<open>
  A Go \<^verbatim>\<open>for { ... }\<close> loop: the body either returns from the function or goes round
  again with a new state. The loops of this program need not terminate, so the number of
  rounds is bounded by a fuel argument; \<open>Running s\<close> is a run that has not returned
  after that many rounds and is about to start the next one in state \<open>s\<close>.
\<close>

datatype ('r, 's) run = Running 's | Returned 'r

fun for_loop :: "nat \<Rightarrow> ('s \<Rightarrow> ('r, 's) run) \<Rightarrow> 's \<Rightarrow> ('r, 's) run" where
  "for_loop 0 body s = Running s"
| "for_loop (Suc n) body s =
     (case body s of Returned r \<Rightarrow> Returned r | Running s' \<Rightarrow> for_loop n body s')"

section \<open>Package address (address.go)\<close>

definition DefaultRequestedAddressSleepTime :: int where
  "DefaultRequestedAddressSleepTime = 100 * Millisecond"

definition DefaultRouteProtocol :: int where
  "DefaultRouteProtocol = 192"

definition DefaultPropagationTimeout :: int where
  "DefaultPropagationTimeout = 250 * Millisecond"

record Address =
  IPNet :: "IPNet option"
  linkIndex :: int

definition Get :: "'s env \<Rightarrow> string \<Rightarrow> int \<Rightarrow> error + Address" where
  "Get nl cidr li =
     (case ParseIPNet nl cidr of
        Inl err \<Rightarrow> Inl (Wrapped ''address.Get'' err)
      | Inr ipnet \<Rightarrow> Inr \<lparr>IPNet = Some ipnet, linkIndex = li\<rparr>)"

definition hostNet :: "Address \<Rightarrow> error + IPNet" where
  "hostNet a =
     (case IPNet a of
        None \<Rightarrow> Inl NilDereference
      | Some n \<Rightarrow> (let ml = snd (Mask n) in Inr \<lparr>IP = IP n, Mask = (ml, ml)\<rparr>))"

definition Delete :: "'s env \<Rightarrow> Address \<Rightarrow> 's world \<Rightarrow> error option \<times> 's world" where
  "Delete nl a w =
     (case hostNet a of
        Inl p \<Rightarrow> (Some p, w)
      | Inr h \<Rightarrow>
          (case routeDel nl \<lparr>LinkIndex = linkIndex a, Dst = Some h,
                  Protocol = DefaultRouteProtocol, Gw = None, MultiPath = []\<rparr> w of
             (Some err, w1) \<Rightarrow> (Some (Wrapped ''a.Delete()'' err), w1)
           | (None, w1) \<Rightarrow> (None, w1)))"

definition numRoutes :: "'s env \<Rightarrow> Address \<Rightarrow> 's world \<Rightarrow> (error + int) \<times> 's world" where
  "numRoutes nl a w =
     (case hostNet a of
        Inl p \<Rightarrow> (Inl p, w)
      | Inr h \<Rightarrow>
          (case routeListFiltered nl h w of
             (Inl err, w1) \<Rightarrow> (Inl (Wrapped ''a.numRoutes()'' err), w1)
           | (Inr routes, w1) \<Rightarrow>
               if length routes \<noteq> 1 then (Inr (int (length routes)), w1)
               else if length (MultiPath (routes ! 0)) \<noteq> 0
                 then (Inr (int (length (MultiPath (routes ! 0)))), w1)
               else (Inr 1, w1)))"

definition attempt :: "'s env \<Rightarrow> Address \<Rightarrow> 's world \<Rightarrow> error option \<times> 's world" where
  "attempt nl a w =
     (let handlerr = Wrapped ''a.attempt()'' in
      case IPNet a of
        None \<Rightarrow> (Some (handlerr NilIPNet), w)
      | Some n \<Rightarrow>
          if IP n = FirstAddr n then (Some (handlerr NetworkIDRequested), w)
          else if IP n = LastAddr n then (Some (handlerr BroadcastRequested), w)
          else
            (case numRoutes nl a w of
               (Inl err, w1) \<Rightarrow> (Some (handlerr err), w1)
             | (Inr numRoutes1, w1) \<Rightarrow>
                 if numRoutes1 > 0 then (Some (handlerr AddressInUse), w1)
                 else
                   (case hostNet a of
                      Inl p \<Rightarrow> (Some p, w1)
                    | Inr h \<Rightarrow>
                        (case routeAdd nl \<lparr>LinkIndex = linkIndex a, Dst = Some h,
                                Protocol = DefaultRouteProtocol, Gw = None, MultiPath = []\<rparr> w1 of
                           (Some err, w2) \<Rightarrow> (Some (handlerr err), w2)
                         | (None, w2) \<Rightarrow>
                             (case numRoutes nl a (sleep DefaultPropagationTimeout w2) of
                                (Inl err, w3) \<Rightarrow>
                                  (case Delete nl a w3 of
                                     (Some err2, w4) \<Rightarrow> (Some (handlerr err2), w4)
                                   | (None, w4) \<Rightarrow> (Some (handlerr err), w4))
                              | (Inr numRoutes2, w3) \<Rightarrow>
                                  if numRoutes2 < 1 then (Some (handlerr RouteVanished), w3)
                                  else if numRoutes2 = 1 then (None, w3)
                                  else
                                    (case Delete nl a w3 of
                                       (Some err, w4) \<Rightarrow> (Some (handlerr err), w4)
                                     | (None, w4) \<Rightarrow> (Some (handlerr RaceLost), w4)))))))"

text \<open>
  The body of the loop of \<^verbatim>\<open>New\<close>. The loop mutates \<^verbatim>\<open>a.IPNet.IP\<close>; its state is the
  \<^verbatim>\<open>net.IPNet\<close> that \<^verbatim>\<open>a.IPNet\<close> points to, and the world. When \<^verbatim>\<open>search\<close> is false,
  \<^verbatim>\<open>startAddr\<close>, \<^verbatim>\<open>firstAddr\<close> and \<^verbatim>\<open>lastAddr\<close> are nil and never read; the model
  passes 0 for them.
\<close>

definition New_body ::
  "'s env \<Rightarrow> int \<Rightarrow> bool \<Rightarrow> IP \<Rightarrow> IP \<Rightarrow> IP \<Rightarrow> IPNet \<times> 's world \<Rightarrow>
     ((error + Address) \<times> 's world, IPNet \<times> 's world) run" where
  "New_body nl li search startAddr firstAddr lastAddr = (\<lambda>(n, w).
     case attempt nl \<lparr>IPNet = Some n, linkIndex = li\<rparr> w of
       (None, w1) \<Rightarrow> Returned (Inr \<lparr>IPNet = Some n, linkIndex = li\<rparr>, w1)
     | (Some err, w1) \<Rightarrow>
         if search then
           (let n1 = n\<lparr>IP := IPAdd (IP n) 1\<rparr>;
                n2 = (if IP n1 = lastAddr then n1\<lparr>IP := IPAdd firstAddr 1\<rparr> else n1)
            in if IP n2 = startAddr
               then Returned (Inl (Wrapped ''address.New'' ExhaustedSpace), w1)
               else Running (n2, sleep DefaultRequestedAddressSleepTime w1))
         else Running (n, sleep DefaultRequestedAddressSleepTime w1))"

definition New ::
  "nat \<Rightarrow> 's env \<Rightarrow> string \<Rightarrow> int \<Rightarrow> int \<Rightarrow> int \<Rightarrow> 's world \<Rightarrow>
     ((error + Address) \<times> 's world, IPNet \<times> 's world) run" where
  "New fuel nl cidr li excludeFirst excludeLast w =
     (case Get nl cidr li of
        Inl err \<Rightarrow> Returned (Inl (Wrapped ''address.New'' err), w)
      | Inr a \<Rightarrow>
          (case IPNet a of
             None \<Rightarrow> Returned (Inl NilDereference, w)
           | Some n \<Rightarrow>
               if IP n = FirstAddr n then
                 (let n0 = n\<lparr>IP := RandAddrWithExclude nl (NetworkID n) excludeFirst excludeLast\<rparr>;
                      startAddr = IP n0;
                      firstAddr = IPAdd (FirstAddr n0) excludeFirst;
                      lastAddr = IPAdd (LastAddr n0) (go_int (-1 * excludeLast))
                  in for_loop fuel (New_body nl (linkIndex a) True startAddr firstAddr lastAddr) (n0, w))
               else for_loop fuel (New_body nl (linkIndex a) False 0 0 0) (n, w)))"

section \<open>Package main (functions.go)\<close>

text \<open>
  \<^verbatim>\<open>functions.go\<close> uses three constants of package main that no file of the repository
  declares. They are parameters of the model.
\<close>

record main_consts =
  main_DefaultRequestedAddressSleepTime :: int
  main_DefaultRouteProtocol :: int
  main_DefaultPropagationTimeout :: int

text \<open>
  \<^verbatim>\<open>address.DefaultMask()\<close> of the Go library: for an IPv4 address the class A mask when
  the first byte is below 128, the class B mask when it is below 192 and the class C mask
  otherwise; nil for any other address. An address counts as IPv4 when its number is below
  \<open>2 ^ 32\<close>.
\<close>

definition DefaultMask :: "IP \<Rightarrow> IPMask option" where
  "DefaultMask ip =
     (if ip < 0 \<or> 2 ^ 32 \<le> ip then None
      else if ip div 2 ^ 24 < 128 then Some (8, 32)
      else if ip div 2 ^ 24 < 192 then Some (16, 32)
      else Some (24, 32))"

definition GetIPNets :: "IP \<Rightarrow> IPNet option \<Rightarrow> IPNet \<times> IPNet" where
  "GetIPNets address subnet =
     (let mask0 = DefaultMask address;
          mask1 = (case subnet of Some s \<Rightarrow> Some (Mask s) | None \<Rightarrow> mask0);
          mask2 = (case mask1 of None \<Rightarrow> (128, 128) | Some m \<Rightarrow> m);
          sna = \<lparr>IP = address, Mask = mask2\<rparr>;
          ml = snd (Mask sna)
      in (sna, \<lparr>IP = address, Mask = (ml, ml)\<rparr>))"

definition numRoutesTo :: "'s env \<Rightarrow> IPNet \<Rightarrow> 's world \<Rightarrow> (error + int) \<times> 's world" where
  "numRoutesTo nl ipnet w =
     (case routeListFiltered nl ipnet w of
        (Inl err, w1) \<Rightarrow> (Inl err, w1)
      | (Inr routes, w1) \<Rightarrow>
          if length routes \<noteq> 1 then (Inr (int (length routes)), w1)
          else (Inr (int (length (MultiPath (routes ! 0)))), w1))"

definition DelRoute ::
  "'s env \<Rightarrow> main_consts \<Rightarrow> int \<Rightarrow> IPNet \<Rightarrow> 's world \<Rightarrow> error option \<times> 's world" where
  "DelRoute nl c li ip w =
     routeDel nl \<lparr>LinkIndex = li, Dst = Some ip,
       Protocol = main_DefaultRouteProtocol c, Gw = None, MultiPath = []\<rparr> w"

fun firstWithoutGw :: "Route list \<Rightarrow> error + int" where
  "firstWithoutGw [] = Inl InterfaceNotFound"
| "firstWithoutGw (r # routes) =
     (if Gw r \<noteq> None then firstWithoutGw routes else Inr (LinkIndex r))"

definition LinkIndexFromIPNet ::
  "'s env \<Rightarrow> nat option \<Rightarrow> 's world \<Rightarrow> (error + int) \<times> 's world" where
  "LinkIndexFromIPNet nl address w =
     (case address of
        None \<Rightarrow> (Inl NilDereference, w)
      | Some p \<Rightarrow>
          (case routeGet nl (IP (heap w p)) w of
             (Inl err, w1) \<Rightarrow> (Inl err, w1)
           | (Inr routes, w1) \<Rightarrow> (firstWithoutGw routes, w1)))"

definition attemptAddress ::
  "'s env \<Rightarrow> main_consts \<Rightarrow> nat option \<Rightarrow> int \<Rightarrow> 's world \<Rightarrow> error option \<times> 's world" where
  "attemptAddress nl c reqAddress li w =
     (case reqAddress of
        None \<Rightarrow> (Some NilIPNet, w)
      | Some p \<Rightarrow>
          (let req = heap w p in
           if IP req = FirstAddr req then (Some NetworkIDRequested, w)
           else if IP req = LastAddr req then (Some BroadcastRequested, w)
           else
             (let addrOnly = snd (GetIPNets (IP req) (Some req)) in
              case numRoutesTo nl addrOnly w of
                (Inl err, w1) \<Rightarrow> (Some err, w1)
              | (Inr numRoutes1, w1) \<Rightarrow>
                  if numRoutes1 > 0 then (Some AddressInUse, w1)
                  else
                    (case routeAdd nl \<lparr>LinkIndex = li, Dst = Some addrOnly,
                            Protocol = main_DefaultRouteProtocol c, Gw = None, MultiPath = []\<rparr> w1 of
                       (Some err, w2) \<Rightarrow> (Some err, w2)
                     | (None, w2) \<Rightarrow>
                         (case numRoutesTo nl addrOnly
                                 (sleep (main_DefaultPropagationTimeout c * Millisecond) w2) of
                            (Inl err, w3) \<Rightarrow>
                              (case DelRoute nl c li addrOnly w3 of
                                 (Some err2, w4) \<Rightarrow> (Some err2, w4)
                               | (None, w4) \<Rightarrow> (Some err, w4))
                          | (Inr numRoutes2, w3) \<Rightarrow>
                              if numRoutes2 < 1 then (Some RouteVanished, w3)
                              else if numRoutes2 = 1 then (None, w3)
                              else
                                (case DelRoute nl c li addrOnly w3 of
                                   (Some err, w4) \<Rightarrow> (Some err, w4)
                                 | (None, w4) \<Rightarrow> (Some RaceLost, w4)))))))"

text \<open>
  \<^verbatim>\<open>randAddr := addr\<close> copies the pointer: every assignment to \<^verbatim>\<open>randAddr.IP\<close> is a
  write to the caller's \<^verbatim>\<open>net.IPNet\<close>, the cell \<open>p\<close> of the store.
\<close>

definition setIP :: "nat \<Rightarrow> IP \<Rightarrow> 's world \<Rightarrow> 's world" where
  "setIP p ip w = w\<lparr>heap := (heap w)(p := (heap w p)\<lparr>IP := ip\<rparr>)\<rparr>"

definition SelectAddress_body ::
  "'s env \<Rightarrow> main_consts \<Rightarrow> nat \<Rightarrow> int \<Rightarrow> bool \<Rightarrow> IP \<Rightarrow> IP \<Rightarrow> IP \<Rightarrow> 's world \<Rightarrow>
     ((error + nat) \<times> 's world, 's world) run" where
  "SelectAddress_body nl c p li search startAddr firstAddr lastAddr w =
     (case attemptAddress nl c (Some p) li w of
        (None, w1) \<Rightarrow> Returned (Inr p, w1)
      | (Some err, w1) \<Rightarrow>
          if search then
            (let w2 = setIP p (IPAdd (IP (heap w1 p)) 1) w1;
                 w3 = (if IP (heap w2 p) = lastAddr then setIP p (IPAdd firstAddr 1) w2 else w2)
             in if IP (heap w3 p) = startAddr then Returned (Inl ExhaustedSpace, w3)
                else Running (sleep (main_DefaultRequestedAddressSleepTime c * Millisecond) w3))
          else Running (sleep (main_DefaultRequestedAddressSleepTime c * Millisecond) w1))"

definition SelectAddress ::
  "nat \<Rightarrow> 's env \<Rightarrow> main_consts \<Rightarrow> nat option \<Rightarrow> int \<Rightarrow> int \<Rightarrow> 's world \<Rightarrow>
     ((error + nat) \<times> 's world, 's world) run" where
  "SelectAddress fuel nl c addr xf xl w =
     (case LinkIndexFromIPNet nl addr w of
        (Inl err, w1) \<Rightarrow> Returned (Inl err, w1)
      | (Inr li, w1) \<Rightarrow>
          (case addr of
             None \<Rightarrow> Returned (Inl NilDereference, w1)
           | Some p \<Rightarrow>
               if IP (heap w1 p) = FirstAddr (heap w1 p) then
                 (let w2 = setIP p (RandAddrWithExclude nl (NetworkID (heap w1 p)) xf xl) w1;
                      startAddr = IP (heap w2 p);
                      firstAddr = IPAdd (FirstAddr (heap w2 p)) xf;
                      lastAddr = IPAdd (LastAddr (heap w2 p)) (go_int (-1 * xl))
                  in for_loop fuel (SelectAddress_body nl c p li True startAddr firstAddr lastAddr) w2)
               else for_loop fuel (SelectAddress_body nl c p li False 0 0 0) w1))"

section \<open>Example environments\<close>

text \<open>
  A routing table held as a list of routes, in the way the kernel answers: a query returns
  the routes to the destination, an insertion fails (\<^verbatim>\<open>EEXIST\<close>, 17) when the table has
  the route already, a deletion fails (\<^verbatim>\<open>ESRCH\<close>, 3) when the route is not in the table.
  \<^verbatim>\<open>RouteGet\<close> answers with the routes \<open>links\<close>.
\<close>

definition table_env ::
  "(string \<Rightarrow> error + IPNet) \<Rightarrow> Route list \<Rightarrow> IP \<Rightarrow> (Route list) env" where
  "table_env parse links rnd =
     \<lparr>ParseIPNet = parse,
      RouteListFiltered = (\<lambda>dst tbl. (Inr (filter (\<lambda>r. Dst r = Some dst) tbl), tbl)),
      RouteAdd = (\<lambda>r tbl. if r \<in> set tbl then (Some (Errno 17), tbl)
                           else (None, tbl @ [r])),
      RouteDel = (\<lambda>r tbl. if r \<in> set tbl then (None, removeAll r tbl)
                           else (Some (Errno 3), tbl)),
      RouteGet = (\<lambda>ip tbl. (Inr links, tbl)),
      RandAddrWithExclude = (\<lambda>n xf xl. rnd)\<rparr>"

text \<open>
  A scripted environment: the state holds the answers still to be given to the queries, the
  insertions and the deletions. When a list is used up, a query is answered with
  \<open>listRest\<close> and a mutation succeeds.
\<close>

record script =
  listResps :: "(error + Route list) list"
  listRest :: "error + Route list"
  addResps :: "error option list"
  delResps :: "error option list"

definition script_env ::
  "(string \<Rightarrow> error + IPNet) \<Rightarrow> error + Route list \<Rightarrow> IP \<Rightarrow> script env" where
  "script_env parse links rnd =
     \<lparr>ParseIPNet = parse,
      RouteListFiltered = (\<lambda>dst s. case listResps s of
                                      [] \<Rightarrow> (listRest s, s)
                                    | r # rs \<Rightarrow> (r, s\<lparr>listResps := rs\<rparr>)),
      RouteAdd = (\<lambda>r s. case addResps s of
                           [] \<Rightarrow> (None, s)
                         | x # xs \<Rightarrow> (x, s\<lparr>addResps := xs\<rparr>)),
      RouteDel = (\<lambda>r s. case delResps s of
                           [] \<Rightarrow> (None, s)
                         | x # xs \<Rightarrow> (x, s\<lparr>delResps := xs\<rparr>)),
      RouteGet = (\<lambda>ip s. (links, s)),
      RandAddrWithExclude = (\<lambda>n xf xl. rnd)\<rparr>"

text \<open>
  A table in which every address has a route installed by another host: every query is
  answered with the routes \<open>inuse dst\<close>, and mutations succeed. \<^verbatim>\<open>RouteGet\<close> answers
  with the routes \<open>links\<close>.
\<close>

definition occupied_env ::
  "(string \<Rightarrow> error + IPNet) \<Rightarrow> Route list \<Rightarrow> (IPNet \<Rightarrow> Route list) \<Rightarrow> IP \<Rightarrow> unit env" where
  "occupied_env parse links inuse rnd =
     \<lparr>ParseIPNet = parse,
      RouteListFiltered = (\<lambda>dst s. (Inr (inuse dst), s)),
      RouteAdd = (\<lambda>r s. (None, s)),
      RouteDel = (\<lambda>r s. (None, s)),
      RouteGet = (\<lambda>ip s. (Inr links, s)),
      RandAddrWithExclude = (\<lambda>n xf xl. rnd)\<rparr>"

text \<open>Concrete data: the subnets 10.0.0.0/24, 10.0.0.0/29 and 10.0.0.0/30.\<close>

definition net24 :: IPNet where
  "net24 = \<lparr>IP = 167772160, Mask = (24, 32)\<rparr>"

definition net29 :: IPNet where
  "net29 = \<lparr>IP = 167772160, Mask = (29, 32)\<rparr>"

definition net30 :: IPNet where
  "net30 = \<lparr>IP = 167772160, Mask = (30, 32)\<rparr>"

definition cand5 :: IPNet where
  "cand5 = \<lparr>IP = 167772165, Mask = (24, 32)\<rparr>"

definition host5 :: IPNet where
  "host5 = \<lparr>IP = 167772165, Mask = (32, 32)\<rparr>"

definition claim5 :: "int \<Rightarrow> Route" where
  "claim5 li = \<lparr>LinkIndex = li, Dst = Some host5, Protocol = 192, Gw = None, MultiPath = []\<rparr>"

definition parse_cidr :: "string \<Rightarrow> error + IPNet" where
  "parse_cidr s =
     (if s = ''10.0.0.0/24'' then Inr net24
      else if s = ''10.0.0.0/29'' then Inr net29
      else if s = ''10.0.0.0/30'' then Inr net30
      else if s = ''10.0.0.5/24'' then Inr cand5
      else if s = ''10.0.0.255/24'' then Inr (net24\<lparr>IP := 167772415\<rparr>)
      else Inl (Errno 22))"

definition link2 :: Route where
  "link2 = \<lparr>LinkIndex = 2, Dst = Some net24, Protocol = 2, Gw = None, MultiPath = []\<rparr>"

definition via_gw :: Route where
  "via_gw = \<lparr>LinkIndex = 9, Dst = None, Protocol = 3, Gw = Some 167772161, MultiPath = []\<rparr>"

definition plain_route :: "int \<Rightarrow> IPNet \<Rightarrow> Route" where
  "plain_route li dst =
     \<lparr>LinkIndex = li, Dst = Some dst, Protocol = 186, Gw = None, MultiPath = []\<rparr>"

text \<open>
  The world before a call: the environment in state \<open>g\<close>, no call made yet, and every
  pointer referring to a copy of \<open>n\<close>.
\<close>

definition world0 :: "'s \<Rightarrow> IPNet \<Rightarrow> 's world" where
  "world0 g n = \<lparr>gw = g, trace = [], heap = (\<lambda>p. n)\<rparr>"

definition consts0 :: main_consts where
  "consts0 = \<lparr>main_DefaultRequestedAddressSleepTime = 100, main_DefaultRouteProtocol = 192,
     main_DefaultPropagationTimeout = 250\<rparr>"

definition busy :: "IPNet \<Rightarrow> Route list" where
  "busy dst = [plain_route 3 dst, plain_route 4 dst]"

definition host6 :: IPNet where
  "host6 = \<lparr>IP = 167772166, Mask = (32, 32)\<rparr>"

definition claim6 :: "int \<Rightarrow> Route" where
  "claim6 li = \<lparr>LinkIndex = li, Dst = Some host6, Protocol = 192, Gw = None, MultiPath = []\<rparr>"

definition addfail_script :: script where
  "addfail_script = \<lparr>listResps = [Inr [], Inr [], Inr [claim6 2]], listRest = Inr [],
     addResps = [Some (Errno 1)], delResps = []\<rparr>"

definition host30 :: "int \<Rightarrow> IPNet" where
  "host30 i = \<lparr>IP = 167772160 + i, Mask = (32, 32)\<rparr>"

definition claim30 :: "int \<Rightarrow> Route" where
  "claim30 i = \<lparr>LinkIndex = 2, Dst = Some (host30 i), Protocol = 192, Gw = None, MultiPath = []\<rparr>"

definition one_path :: "int \<Rightarrow> Route" where
  "one_path i = \<lparr>LinkIndex = 2, Dst = Some (host30 i), Protocol = 192, Gw = None,
     MultiPath = [\<lparr>nhLinkIndex = 2, nhGw = None\<rparr>]\<rparr>"

definition grant_script :: script where
  "grant_script = \<lparr>listResps = [Inr [claim30 1], Inr [], Inr [one_path 2]], listRest = Inr [],
     addResps = [Some (Errno 17)], delResps = []\<rparr>"

definition leak_script :: script where
  "leak_script = \<lparr>listResps = [Inr [], Inl (Errno 5)], listRest = Inr [],
     addResps = [], delResps = [Some (Errno 1)]\<rparr>"

definition race_script :: script where
  "race_script = \<lparr>listResps = [Inr [], Inr [claim5 2, plain_route 3 host5]], listRest = Inr [],
     addResps = [], delResps = []\<rparr>"

definition stuck_script :: script where
  "stuck_script = \<lparr>listResps = [Inr [], Inr [claim5 2, plain_route 3 host5]], listRest = Inr [],
     addResps = [], delResps = [Some (Errno 1)]\<rparr>"

section \<open>Notions used to state the properties\<close>

text \<open>
  The number that \<^verbatim>\<open>Address.numRoutes\<close> computes from the routes a query returns, and the
  number that \<^verbatim>\<open>numRoutesTo\<close> computes from them.
\<close>

definition pathCount :: "Route list \<Rightarrow> int" where
  "pathCount routes =
     (if length routes \<noteq> 1 then int (length routes)
      else if length (MultiPath (routes ! 0)) \<noteq> 0 then int (length (MultiPath (routes ! 0)))
      else 1)"

definition pathCountTo :: "Route list \<Rightarrow> int" where
  "pathCountTo routes =
     (if length routes \<noteq> 1 then int (length routes)
      else int (length (MultiPath (routes ! 0))))"

text \<open>The host route of an attempt: what \<^verbatim>\<open>hostNet\<close> and \<^verbatim>\<open>GetIPNets\<close> build.\<close>

definition fullLength :: "IPNet \<Rightarrow> IPNet" where
  "fullLength n = \<lparr>IP = IP n, Mask = (snd (Mask n), snd (Mask n))\<rparr>"

definition hostRoute :: "int \<Rightarrow> int \<Rightarrow> IPNet \<Rightarrow> Route" where
  "hostRoute li proto n =
     \<lparr>LinkIndex = li, Dst = Some (fullLength n), Protocol = proto, Gw = None, MultiPath = []\<rparr>"

text \<open>
  The round trip through the range \<open>[L, U]\<close> that starts at \<open>r\<close>, advances by one and
  wraps from \<open>U\<close> to \<open>L\<close>: its \<open>k\<close>-th address.
\<close>

definition round_trip :: "int \<Rightarrow> int \<Rightarrow> int \<Rightarrow> nat \<Rightarrow> int" where
  "round_trip L U r k = L + (r - L + int k) mod (U - L + 1)"

text \<open>The calls made between the world \<open>w\<close> and the later world \<open>w'\<close>.\<close>

definition new_events :: "'s world \<Rightarrow> 's world \<Rightarrow> event list" where
  "new_events w w' = drop (length (trace w)) (trace w')"

text \<open>
  What is left of a route inserted by an attempt, read off the calls \<open>evs\<close> that the attempt
  made, where \<open>h\<close> is the destination and \<open>rt\<close> the host route of the attempt: no
  insertion succeeded; or the last call is the second query and it found no route to the
  destination; or the last call is the deletion of the inserted route, with result \<open>d\<close>.
\<close>

definition no_insertion :: "event list \<Rightarrow> bool" where
  "no_insertion evs = (\<forall>r. EvRouteAdd r None \<notin> set evs)"

definition found_gone :: "IPNet \<Rightarrow> event list \<Rightarrow> bool" where
  "found_gone h evs = (evs \<noteq> [] \<and> last evs = EvRouteListFiltered h (Inr []))"

definition rollback_issued :: "Route \<Rightarrow> event list \<Rightarrow> error option \<Rightarrow> bool" where
  "rollback_issued rt evs d =
     (EvRouteAdd rt None \<in> set evs \<and> evs \<noteq> [] \<and> last evs = EvRouteDel rt d)"

text \<open>
  A call that is not a link lookup and that, when it inserts or deletes a route, does so on
  the link \<open>li\<close>.
\<close>

definition on_link :: "int \<Rightarrow> event \<Rightarrow> bool" where
  "on_link li ev =
     (case ev of
        EvRouteAdd rt res \<Rightarrow> LinkIndex rt = li
      | EvRouteDel rt res \<Rightarrow> LinkIndex rt = li
      | EvRouteGet ip res \<Rightarrow> False
      | EvRouteListFiltered dst res \<Rightarrow> True
      | EvSleep d \<Rightarrow> True)"

text \<open>Every call made between the world \<open>w\<close> and the later world \<open>w'\<close> satisfies \<open>P\<close>.\<close>

definition calls_between :: "(event \<Rightarrow> bool) \<Rightarrow> 's world \<Rightarrow> 's world \<Rightarrow> bool" where
  "calls_between P w w' = (\<exists>evs. trace w' = trace w @ evs \<and> list_all P evs)"

text \<open>The world in which a run of \<^verbatim>\<open>New\<close>, or of \<^verbatim>\<open>SelectAddress\<close>, stands.\<close>

fun New_world :: "('r \<times> 's world, IPNet \<times> 's world) run \<Rightarrow> 's world" where
  "New_world (Running s) = snd s"
| "New_world (Returned r) = snd r"

fun SelectAddress_world :: "('r \<times> 's world, 's world) run \<Rightarrow> 's world" where
  "SelectAddress_world (Running s) = s"
| "SelectAddress_world (Returned r) = snd r"

section \<open>Rules for evaluating the examples\<close>

lemmas example_defs = script_env_def table_env_def occupied_env_def world0_def cand5_def host5_def
  link2_def via_gw_def busy_def host6_def claim6_def host30_def claim30_def one_path_def
  claim5_def plain_route_def parse_cidr_def consts0_def net24_def net29_def net30_def
  FirstAddr_def LastAddr_def hostBits_def NetworkID_def IPAdd_def go_int_def
  DefaultRouteProtocol_def DefaultPropagationTimeout_def DefaultRequestedAddressSleepTime_def
  Millisecond_def

lemmas call_defs = routeListFiltered_def routeAdd_def routeDel_def routeGet_def sleep_def

lemmas address_defs = attempt_def numRoutes_def hostNet_def Delete_def Get_def

lemmas main_defs = attemptAddress_def numRoutesTo_def DelRoute_def GetIPNets_def
  LinkIndexFromIPNet_def setIP_def

section \<open>Basic facts\<close>

lemma for_loop_Suc_end:
  "for_loop (Suc k) body s =
     (case for_loop k body s of Running s' \<Rightarrow> body s' | Returned r \<Rightarrow> Returned r)"
proof (induction k arbitrary: s)
  case 0
  show ?case by (simp split: run.splits)
next
  case (Suc k)
  show ?case
  proof (cases "body s")
    case (Running s1)
    then have "for_loop (Suc (Suc k)) body s = for_loop (Suc k) body s1"
      by simp
    also have "\<dots> = (case for_loop k body s1 of Running s' \<Rightarrow> body s' | Returned r \<Rightarrow> Returned r)"
      by (rule Suc.IH)
    also have "for_loop k body s1 = for_loop (Suc k) body s"
      using Running by simp
    finally show ?thesis .
  next
    case (Returned r)
    then show ?thesis by simp
  qed
qed

lemma for_loop_Running_invariant:
  assumes "for_loop k body s = Running s'" and "I s"
    and "\<And>t t'. I t \<Longrightarrow> body t = Running t' \<Longrightarrow> I t'"
  shows "I s'"
  using assms(1,2)
proof (induction k arbitrary: s)
  case 0
  then show ?case by simp
next
  case (Suc k)
  then show ?case using assms(3) by (auto split: run.splits)
qed

lemma for_loop_Returned_from:
  assumes "for_loop k body s = Returned r" and "I s"
    and "\<And>t t'. I t \<Longrightarrow> body t = Running t' \<Longrightarrow> I t'"
  shows "\<exists>t. I t \<and> body t = Returned r"
  using assms(1,2)
proof (induction k arbitrary: s)
  case 0
  then show ?case by simp
next
  case (Suc k)
  then show ?case using assms(3) by (auto split: run.splits)
qed

lemma mask_in_subnet:
  fixes F x m :: int
  assumes "0 < m" "F mod m = 0" "F \<le> x" "x < F + m"
  shows "x - x mod m = F"
proof -
  have "x mod m = (x - F) mod m"
    using assms(2) by (metis diff_zero mod_diff_right_eq)
  also have "\<dots> = x - F"
    using assms by (simp add: mod_pos_pos_trivial)
  finally show ?thesis by simp
qed

lemma FirstAddr_mod: "FirstAddr n mod 2 ^ hostBits (Mask n) = 0"
  by (simp add: FirstAddr_def minus_mod_eq_mult_div)

lemma FirstAddr_in_subnet:
  assumes "FirstAddr n \<le> x" "x \<le> LastAddr n"
  shows "FirstAddr (n\<lparr>IP := x\<rparr>) = FirstAddr n"
proof -
  have "x - x mod 2 ^ hostBits (Mask n) = FirstAddr n"
    using assms FirstAddr_mod [of n]
    by (intro mask_in_subnet) (auto simp: LastAddr_def)
  then show ?thesis by (simp add: FirstAddr_def)
qed

lemma LastAddr_in_subnet:
  assumes "FirstAddr n \<le> x" "x \<le> LastAddr n"
  shows "LastAddr (n\<lparr>IP := x\<rparr>) = LastAddr n"
  using FirstAddr_in_subnet [OF assms] by (simp add: LastAddr_def)

lemma go_int_neg: "0 \<le> xl \<Longrightarrow> xl < 2 ^ 63 \<Longrightarrow> go_int (- xl) = - xl"
  by (simp add: go_int_def mod_pos_pos_trivial)


lemma New_body_in_range:
  assumes "New_body nl li True start fa la (n, w) = Running (n', w')"
    and "fa + 1 \<le> IP n" "IP n \<le> la - 1"
  shows "fa + 1 \<le> IP n' \<and> IP n' \<le> la - 1 \<and> Mask n' = Mask n"
  using assms
  by (auto simp: New_body_def Let_def IPAdd_def split: prod.splits option.splits if_splits)

lemma New_search_unfold:
  assumes parse: "ParseIPNet nl cidr = Inr n" and search: "IP n = FirstAddr n"
    and xf: "0 \<le> xf" and xl: "0 \<le> xl" "xl < 2 ^ 63"
    and draw: "FirstAddr n + 1 + xf \<le> RandAddrWithExclude nl (NetworkID n) xf xl"
      "RandAddrWithExclude nl (NetworkID n) xf xl \<le> LastAddr n - 1 - xl"
  shows "New k nl cidr li xf xl w =
     for_loop k (New_body nl li True (RandAddrWithExclude nl (NetworkID n) xf xl)
         (FirstAddr n + xf) (LastAddr n - xl))
       (n\<lparr>IP := RandAddrWithExclude nl (NetworkID n) xf xl\<rparr>, w)"
proof -
  let ?r = "RandAddrWithExclude nl (NetworkID n) xf xl"
  have sub: "FirstAddr n \<le> ?r" "?r \<le> LastAddr n"
    using xf xl draw by auto
  show ?thesis
    using parse search xl
    by (simp add: New_def Get_def Let_def IPAdd_def FirstAddr_in_subnet [OF sub]
        LastAddr_in_subnet [OF sub] go_int_neg)
qed

lemma New_candidates_in_range:
  assumes parse: "ParseIPNet nl cidr = Inr n" and search: "IP n = FirstAddr n"
    and xf: "0 \<le> xf" and xl: "0 \<le> xl" "xl < 2 ^ 63"
    and draw: "FirstAddr n + 1 + xf \<le> RandAddrWithExclude nl (NetworkID n) xf xl"
      "RandAddrWithExclude nl (NetworkID n) xf xl \<le> LastAddr n - 1 - xl"
    and run: "New k nl cidr li xf xl w = Running (n', w')"
  shows "FirstAddr n + 1 + xf \<le> IP n' \<and> IP n' \<le> LastAddr n - 1 - xl \<and> Mask n' = Mask n"
proof -
  let ?r = "RandAddrWithExclude nl (NetworkID n) xf xl"
  let ?I = "\<lambda>s. FirstAddr n + xf + 1 \<le> IP (fst s) \<and> IP (fst s) \<le> LastAddr n - xl - 1 \<and>
     Mask (fst s) = Mask n"
  have "?I (n', w')"
  proof (rule for_loop_Running_invariant [where I = ?I])
    show "for_loop k (New_body nl li True ?r (FirstAddr n + xf) (LastAddr n - xl))
        (n\<lparr>IP := ?r\<rparr>, w) = Running (n', w')"
      using run New_search_unfold [OF parse search xf xl draw] by simp
    show "?I (n\<lparr>IP := ?r\<rparr>, w)" using draw by simp
  next
    fix t t'
    assume "?I t" and "New_body nl li True ?r (FirstAddr n + xf) (LastAddr n - xl) t = Running t'"
    then show "?I t'"
      using New_body_in_range [of nl li ?r "FirstAddr n + xf" "LastAddr n - xl" "fst t" "snd t"
          "fst t'" "snd t'"]
      by simp
  qed
  then show ?thesis by simp
qed


lemma attempt_eq:
  assumes q1: "RouteListFiltered nl (fullLength n) (gw w) = (a1, g1)"
    and add: "RouteAdd nl (hostRoute li DefaultRouteProtocol n) g1 = (a2, g2)"
    and q2: "RouteListFiltered nl (fullLength n) g2 = (a3, g3)"
    and del: "RouteDel nl (hostRoute li DefaultRouteProtocol n) g3 = (a4, g4)"
  shows "attempt nl \<lparr>IPNet = Some n, linkIndex = li\<rparr> w =
    (let h = fullLength n; rt = hostRoute li DefaultRouteProtocol n; H = Wrapped ''a.attempt()'';
         t = DefaultPropagationTimeout in
     if IP n = FirstAddr n then (Some (H NetworkIDRequested), w)
     else if IP n = LastAddr n then (Some (H BroadcastRequested), w)
     else
       (case a1 of
          Inl e \<Rightarrow> (Some (H (Wrapped ''a.numRoutes()'' e)),
                    w\<lparr>gw := g1, trace := trace w @ [EvRouteListFiltered h a1]\<rparr>)
        | Inr rs \<Rightarrow>
            if 0 < pathCount rs then
              (Some (H AddressInUse), w\<lparr>gw := g1, trace := trace w @ [EvRouteListFiltered h a1]\<rparr>)
            else
              (case a2 of
                 Some e \<Rightarrow> (Some (H e),
                    w\<lparr>gw := g2, trace := trace w @ [EvRouteListFiltered h a1, EvRouteAdd rt a2]\<rparr>)
               | None \<Rightarrow>
                   (case a3 of
                      Inl e \<Rightarrow>
                        (Some (H (case a4 of None \<Rightarrow> Wrapped ''a.numRoutes()'' e
                                  | Some e2 \<Rightarrow> Wrapped ''a.Delete()'' e2)),
                         w\<lparr>gw := g4, trace := trace w @ [EvRouteListFiltered h a1, EvRouteAdd rt a2,
                            EvSleep t, EvRouteListFiltered h a3, EvRouteDel rt a4]\<rparr>)
                    | Inr rs2 \<Rightarrow>
                        if pathCount rs2 < 1 then
                          (Some (H RouteVanished),
                           w\<lparr>gw := g3, trace := trace w @ [EvRouteListFiltered h a1, EvRouteAdd rt a2,
                              EvSleep t, EvRouteListFiltered h a3]\<rparr>)
                        else if pathCount rs2 = 1 then
                          (None,
                           w\<lparr>gw := g3, trace := trace w @ [EvRouteListFiltered h a1, EvRouteAdd rt a2,
                              EvSleep t, EvRouteListFiltered h a3]\<rparr>)
                        else
                          (Some (H (case a4 of None \<Rightarrow> RaceLost
                                    | Some e2 \<Rightarrow> Wrapped ''a.Delete()'' e2)),
                           w\<lparr>gw := g4, trace := trace w @ [EvRouteListFiltered h a1, EvRouteAdd rt a2,
                              EvSleep t, EvRouteListFiltered h a3, EvRouteDel rt a4]\<rparr>)))))"
  using assms
  by (cases a1; cases a2; cases a3; cases a4)
     (simp_all add: attempt_def numRoutes_def Delete_def hostNet_def routeListFiltered_def
      routeAdd_def routeDel_def sleep_def Let_def fullLength_def hostRoute_def pathCount_def)


lemma GetIPNets_snd: "snd (GetIPNets (IP n) (Some n)) = fullLength n"
  by (simp add: GetIPNets_def fullLength_def Let_def)

lemma attemptAddress_eq:
  assumes q1: "RouteListFiltered nl (fullLength (heap w p)) (gw w) = (a1, g1)"
    and add: "RouteAdd nl (hostRoute li (main_DefaultRouteProtocol c) (heap w p)) g1 = (a2, g2)"
    and q2: "RouteListFiltered nl (fullLength (heap w p)) g2 = (a3, g3)"
    and del: "RouteDel nl (hostRoute li (main_DefaultRouteProtocol c) (heap w p)) g3 = (a4, g4)"
  shows "attemptAddress nl c (Some p) li w =
    (let n = heap w p; h = fullLength n; rt = hostRoute li (main_DefaultRouteProtocol c) n;
         t = main_DefaultPropagationTimeout c * Millisecond in
     if IP n = FirstAddr n then (Some NetworkIDRequested, w)
     else if IP n = LastAddr n then (Some BroadcastRequested, w)
     else
       (case a1 of
          Inl e \<Rightarrow> (Some e, w\<lparr>gw := g1, trace := trace w @ [EvRouteListFiltered h a1]\<rparr>)
        | Inr rs \<Rightarrow>
            if 0 < pathCountTo rs then
              (Some AddressInUse, w\<lparr>gw := g1, trace := trace w @ [EvRouteListFiltered h a1]\<rparr>)
            else
              (case a2 of
                 Some e \<Rightarrow> (Some e,
                    w\<lparr>gw := g2, trace := trace w @ [EvRouteListFiltered h a1, EvRouteAdd rt a2]\<rparr>)
               | None \<Rightarrow>
                   (case a3 of
                      Inl e \<Rightarrow>
                        (Some (case a4 of None \<Rightarrow> e | Some e2 \<Rightarrow> e2),
                         w\<lparr>gw := g4, trace := trace w @ [EvRouteListFiltered h a1, EvRouteAdd rt a2,
                            EvSleep t, EvRouteListFiltered h a3, EvRouteDel rt a4]\<rparr>)
                    | Inr rs2 \<Rightarrow>
                        if pathCountTo rs2 < 1 then
                          (Some RouteVanished,
                           w\<lparr>gw := g3, trace := trace w @ [EvRouteListFiltered h a1, EvRouteAdd rt a2,
                              EvSleep t, EvRouteListFiltered h a3]\<rparr>)
                        else if pathCountTo rs2 = 1 then
                          (None,
                           w\<lparr>gw := g3, trace := trace w @ [EvRouteListFiltered h a1, EvRouteAdd rt a2,
                              EvSleep t, EvRouteListFiltered h a3]\<rparr>)
                        else
                          (Some (case a4 of None \<Rightarrow> RaceLost | Some e2 \<Rightarrow> e2),
                           w\<lparr>gw := g4, trace := trace w @ [EvRouteListFiltered h a1, EvRouteAdd rt a2,
                              EvSleep t, EvRouteListFiltered h a3, EvRouteDel rt a4]\<rparr>)))))"
  using assms
  by (cases a1; cases a2; cases a3; cases a4)
     (simp_all add: attemptAddress_def numRoutesTo_def DelRoute_def GetIPNets_snd
      routeListFiltered_def routeAdd_def routeDel_def sleep_def Let_def hostRoute_def
      pathCountTo_def)


lemmas attempt_unfold =
  attempt_eq [OF surjective_pairing surjective_pairing surjective_pairing surjective_pairing]

lemmas attemptAddress_unfold =
  attemptAddress_eq [OF surjective_pairing surjective_pairing surjective_pairing surjective_pairing]

lemma attempt_heap: "heap (snd (attempt nl \<lparr>IPNet = Some n, linkIndex = li\<rparr> w)) = heap w"
  by (simp add: attempt_unfold Let_def split: sum.splits option.splits)

lemma attemptAddress_heap: "heap (snd (attemptAddress nl c (Some p) li w)) = heap w"
  by (simp add: attemptAddress_unfold Let_def split: sum.splits option.splits)

lemma LinkIndexFromIPNet_heap: "heap (snd (LinkIndexFromIPNet nl addr w)) = heap w"
  by (simp add: LinkIndexFromIPNet_def routeGet_def split: option.splits prod.splits sum.splits)

lemma SelectAddress_body_in_range:
  assumes "SelectAddress_body nl c p li True start fa la w = Running w'"
    and "fa + 1 \<le> IP (heap w p)" "IP (heap w p) \<le> la - 1"
  shows "fa + 1 \<le> IP (heap w' p) \<and> IP (heap w' p) \<le> la - 1 \<and>
     Mask (heap w' p) = Mask (heap w p)"
proof -
  obtain res w1 where a: "attemptAddress nl c (Some p) li w = (res, w1)"
    by (cases "attemptAddress nl c (Some p) li w")
  have "heap w1 = heap w"
    using attemptAddress_heap [of nl c p li w] a by simp
  then show ?thesis
    using assms a
    by (auto simp: SelectAddress_body_def Let_def IPAdd_def setIP_def sleep_def
        split: option.splits if_splits)
qed

lemma SelectAddress_search_unfold:
  assumes link: "LinkIndexFromIPNet nl (Some p) w = (Inr li, w1)"
    and search: "IP (heap w p) = FirstAddr (heap w p)"
    and xf: "0 \<le> xf" and xl: "0 \<le> xl" "xl < 2 ^ 63"
    and draw: "FirstAddr (heap w p) + 1 + xf \<le> RandAddrWithExclude nl (NetworkID (heap w p)) xf xl"
      "RandAddrWithExclude nl (NetworkID (heap w p)) xf xl \<le> LastAddr (heap w p) - 1 - xl"
  shows "SelectAddress k nl c (Some p) xf xl w =
     for_loop k (SelectAddress_body nl c p li True
         (RandAddrWithExclude nl (NetworkID (heap w p)) xf xl)
         (FirstAddr (heap w p) + xf) (LastAddr (heap w p) - xl))
       (setIP p (RandAddrWithExclude nl (NetworkID (heap w p)) xf xl) w1)"
proof -
  let ?n = "heap w p"
  let ?r = "RandAddrWithExclude nl (NetworkID ?n) xf xl"
  have sub: "FirstAddr ?n \<le> ?r" "?r \<le> LastAddr ?n"
    using xf xl draw by auto
  have h: "heap w1 = heap w"
    using LinkIndexFromIPNet_heap [of nl "Some p" w] link by simp
  show ?thesis
    using link search xl h
    by (simp add: SelectAddress_def Let_def IPAdd_def setIP_def FirstAddr_in_subnet [OF sub]
        LastAddr_in_subnet [OF sub] go_int_neg)
qed

lemma SelectAddress_candidates_in_range:
  assumes search: "IP (heap w p) = FirstAddr (heap w p)"
    and xf: "0 \<le> xf" and xl: "0 \<le> xl" "xl < 2 ^ 63"
    and draw: "FirstAddr (heap w p) + 1 + xf \<le> RandAddrWithExclude nl (NetworkID (heap w p)) xf xl"
      "RandAddrWithExclude nl (NetworkID (heap w p)) xf xl \<le> LastAddr (heap w p) - 1 - xl"
    and run: "SelectAddress k nl c (Some p) xf xl w = Running w'"
  shows "FirstAddr (heap w p) + 1 + xf \<le> IP (heap w' p) \<and>
     IP (heap w' p) \<le> LastAddr (heap w p) - 1 - xl \<and> Mask (heap w' p) = Mask (heap w p)"
proof -
  let ?n = "heap w p"
  let ?r = "RandAddrWithExclude nl (NetworkID ?n) xf xl"
  let ?I = "\<lambda>s. FirstAddr ?n + xf + 1 \<le> IP (heap s p) \<and> IP (heap s p) \<le> LastAddr ?n - xl - 1 \<and>
     Mask (heap s p) = Mask ?n"
  obtain res w1 where link: "LinkIndexFromIPNet nl (Some p) w = (res, w1)"
    by (cases "LinkIndexFromIPNet nl (Some p) w")
  have h: "heap w1 = heap w"
    using LinkIndexFromIPNet_heap [of nl "Some p" w] link by simp
  obtain li where res: "res = Inr li"
    using run link by (cases res) (auto simp: SelectAddress_def)
  have "?I w'"
  proof (rule for_loop_Running_invariant [where I = ?I])
    show "for_loop k (SelectAddress_body nl c p li True ?r (FirstAddr ?n + xf) (LastAddr ?n - xl))
        (setIP p ?r w1) = Running w'"
      using run SelectAddress_search_unfold [OF link [unfolded res] search xf xl draw] by simp
    show "?I (setIP p ?r w1)" using draw h by (simp add: setIP_def)
  next
    fix t t'
    assume "?I t"
      and "SelectAddress_body nl c p li True ?r (FirstAddr ?n + xf) (LastAddr ?n - xl) t = Running t'"
    then show "?I t'"
      using SelectAddress_body_in_range [of nl c p li ?r "FirstAddr ?n + xf" "LastAddr ?n - xl" t t']
      by simp
  qed
  then show ?thesis by simp
qed

lemma round_trip_0: "L \<le> r \<Longrightarrow> r \<le> U \<Longrightarrow> round_trip L U r 0 = r"
  by (simp add: round_trip_def mod_pos_pos_trivial)

lemma round_trip_bounds:
  assumes "L \<le> U"
  shows "L \<le> round_trip L U r k \<and> round_trip L U r k \<le> U"
proof -
  have "0 < U - L + 1" using assms by simp
  then have "0 \<le> (r - L + int k) mod (U - L + 1)" "(r - L + int k) mod (U - L + 1) < U - L + 1"
    by (rule pos_mod_sign, rule pos_mod_bound)
  then show ?thesis by (simp add: round_trip_def)
qed

lemma round_trip_Suc:
  assumes "L \<le> U"
  shows "round_trip L U r (Suc k) =
     (if round_trip L U r k = U then L else round_trip L U r k + 1)"
proof -
  let ?M = "U - L + 1"
  let ?j = "(r - L + int k) mod ?M"
  have "0 < ?M" using assms by simp
  then have j: "0 \<le> ?j" "?j < ?M"
    by (rule pos_mod_sign, rule pos_mod_bound)
  have "(r - L + int (Suc k)) mod ?M = ((r - L + int k) + 1) mod ?M"
    by (simp add: algebra_simps)
  also have "\<dots> = (?j + 1) mod ?M"
    by (rule mod_add_left_eq [symmetric])
  also have "\<dots> = (if ?j + 1 = ?M then 0 else ?j + 1)"
    using j by (simp add: mod_pos_pos_trivial)
  finally show ?thesis by (auto simp: round_trip_def)
qed

lemma round_trip_eq_iff:
  assumes "L \<le> U"
  shows "round_trip L U r k = round_trip L U r k' \<longleftrightarrow> (U - L + 1) dvd (int k - int k')"
proof -
  have "round_trip L U r k = round_trip L U r k' \<longleftrightarrow>
      (r - L + int k) mod (U - L + 1) = (r - L + int k') mod (U - L + 1)"
    by (simp add: round_trip_def)
  also have "\<dots> \<longleftrightarrow> (U - L + 1) dvd ((r - L + int k) - (r - L + int k'))"
    by (rule mod_eq_dvd_iff)
  finally show ?thesis by simp
qed

lemma round_trip_start_iff:
  assumes "L \<le> r" "r \<le> U" "0 < k" "int k \<le> U - L + 1"
  shows "round_trip L U r k = r \<longleftrightarrow> int k = U - L + 1"
proof -
  have "round_trip L U r k = round_trip L U r 0 \<longleftrightarrow> (U - L + 1) dvd int k"
    using round_trip_eq_iff [of L U r k 0] assms by simp
  moreover have "(U - L + 1) dvd int k \<longleftrightarrow> int k = U - L + 1"
  proof
    assume "(U - L + 1) dvd int k"
    then have "U - L + 1 \<le> int k" using assms(3) by (intro zdvd_imp_le) auto
    then show "int k = U - L + 1" using assms(4) by simp
  qed simp
  ultimately show ?thesis using round_trip_0 [OF assms(1,2)] by simp
qed

lemma round_trip_inj:
  assumes "L \<le> U" "int k < U - L + 1" "int k' < U - L + 1"
    and "round_trip L U r k = round_trip L U r k'"
  shows "k = k'"
proof -
  have d: "(U - L + 1) dvd (int k - int k')"
    using round_trip_eq_iff [OF assms(1)] assms(4) by simp
  have "\<bar>int k - int k'\<bar> < U - L + 1" using assms(2,3) by simp
  with d have "int k - int k' = 0"
    using zdvd_not_zless [of "\<bar>int k - int k'\<bar>" "U - L + 1"] by auto
  then show ?thesis by simp
qed

lemma round_trip_surj:
  assumes "L \<le> r" "r \<le> U" "L \<le> a" "a \<le> U"
  shows "\<exists>k. int k < U - L + 1 \<and> round_trip L U r k = a"
proof -
  let ?M = "U - L + 1"
  let ?k = "nat ((a - r) mod ?M)"
  have "0 < ?M" using assms by simp
  then have k: "0 \<le> (a - r) mod ?M" "(a - r) mod ?M < ?M"
    by (rule pos_mod_sign, rule pos_mod_bound)
  have "(r - L + int ?k) mod ?M = (r - L + (a - r)) mod ?M"
    using k by (simp add: mod_add_right_eq)
  also have "\<dots> = a - L" using assms by (simp add: mod_pos_pos_trivial)
  finally have "round_trip L U r ?k = a" by (simp add: round_trip_def)
  then show ?thesis using k by (intro exI [of _ ?k]) simp
qed


lemma pathCount_pos: "rs \<noteq> [] \<Longrightarrow> 0 < pathCount rs"
  by (cases rs) (auto simp: pathCount_def)

lemma attempt_in_use:
  assumes "\<And>dst g. fst (RouteListFiltered nl dst g) = Inr (inuse dst)"
    and "\<And>dst. inuse dst \<noteq> []"
  shows "fst (attempt nl \<lparr>IPNet = Some n, linkIndex = li\<rparr> w) \<noteq> None"
  using assms(2) by (simp add: attempt_unfold Let_def assms(1) pathCount_pos)

lemma attemptAddress_in_use:
  assumes "\<And>dst g. fst (RouteListFiltered nl dst g) = Inr (inuse dst)"
  shows "fst (attemptAddress nl c (Some p) li w) \<noteq> None"
  by (simp add: attemptAddress_unfold Let_def assms split: option.splits)

lemma New_body_failed:
  assumes "fst (attempt nl \<lparr>IPNet = Some m, linkIndex = li\<rparr> w) \<noteq> None"
  shows "New_body nl li True r fa la (m, w) =
     (if (if IP m + 1 = la then fa + 1 else IP m + 1) = r
      then Returned (Inl (Wrapped ''address.New'' ExhaustedSpace),
             snd (attempt nl \<lparr>IPNet = Some m, linkIndex = li\<rparr> w))
      else Running (m\<lparr>IP := (if IP m + 1 = la then fa + 1 else IP m + 1)\<rparr>,
             sleep DefaultRequestedAddressSleepTime
               (snd (attempt nl \<lparr>IPNet = Some m, linkIndex = li\<rparr> w))))"
  using assms
  by (cases "attempt nl \<lparr>IPNet = Some m, linkIndex = li\<rparr> w")
     (auto simp: New_body_def Let_def IPAdd_def)

lemma New_loop_round_trip:
  assumes fail: "\<And>m w. fst (attempt nl \<lparr>IPNet = Some m, linkIndex = li\<rparr> w) \<noteq> None"
    and range: "L \<le> r" "r \<le> U"
    and k: "int k < U - L + 1"
  shows "\<exists>w'. for_loop k (New_body nl li True r (L - 1) (U + 1)) (n\<lparr>IP := r\<rparr>, w) =
     Running (n\<lparr>IP := round_trip L U r k\<rparr>, w')"
  using k
proof (induction k)
  case 0
  then show ?case using range by (simp add: round_trip_0)
next
  case (Suc k)
  then obtain w' where run: "for_loop k (New_body nl li True r (L - 1) (U + 1)) (n\<lparr>IP := r\<rparr>, w) =
     Running (n\<lparr>IP := round_trip L U r k\<rparr>, w')"
    by auto
  have LU: "L \<le> U" using range by simp
  have "round_trip L U r (Suc k) \<noteq> r"
    using round_trip_start_iff [OF range, of "Suc k"] Suc.prems by simp
  then show ?case
    using run fail [of "n\<lparr>IP := round_trip L U r k\<rparr>" w'] round_trip_Suc [OF LU, of r k]
    by (auto simp: for_loop_Suc_end New_body_failed simp del: for_loop.simps split: if_splits)
qed

lemma New_loop_exhausted:
  assumes fail: "\<And>m w. fst (attempt nl \<lparr>IPNet = Some m, linkIndex = li\<rparr> w) \<noteq> None"
    and range: "L \<le> r" "r \<le> U"
  shows "\<exists>w'. for_loop (nat (U - L + 1)) (New_body nl li True r (L - 1) (U + 1)) (n\<lparr>IP := r\<rparr>, w) =
     Returned (Inl (Wrapped ''address.New'' ExhaustedSpace), w')"
proof -
  obtain k where N: "nat (U - L + 1) = Suc k"
    using range by (cases "nat (U - L + 1)") auto
  then have k: "int k < U - L + 1" by linarith
  obtain w' where run: "for_loop k (New_body nl li True r (L - 1) (U + 1)) (n\<lparr>IP := r\<rparr>, w) =
     Running (n\<lparr>IP := round_trip L U r k\<rparr>, w')"
    using New_loop_round_trip [OF fail range k] by blast
  have LU: "L \<le> U" using range by simp
  have "round_trip L U r (Suc k) = r"
    using round_trip_start_iff [OF range, of "Suc k"] N by simp
  then show ?thesis
    using run fail [of "n\<lparr>IP := round_trip L U r k\<rparr>" w'] round_trip_Suc [OF LU, of r k]
    unfolding N
    by (auto simp: for_loop_Suc_end New_body_failed simp del: for_loop.simps split: if_splits)
qed


lemma SelectAddress_body_failed:
  assumes "fst (attemptAddress nl c (Some p) li w) \<noteq> None"
  shows "SelectAddress_body nl c p li True r fa la w =
       (if (if IP (heap w p) + 1 = la then fa + 1 else IP (heap w p) + 1) = r
        then Returned (Inl ExhaustedSpace,
               setIP p (if IP (heap w p) + 1 = la then fa + 1 else IP (heap w p) + 1)
                 (snd (attemptAddress nl c (Some p) li w)))
        else Running (sleep (main_DefaultRequestedAddressSleepTime c * Millisecond)
               (setIP p (if IP (heap w p) + 1 = la then fa + 1 else IP (heap w p) + 1)
                 (snd (attemptAddress nl c (Some p) li w)))))"
proof -
  obtain res w1 where a: "attemptAddress nl c (Some p) li w = (res, w1)"
    by (cases "attemptAddress nl c (Some p) li w")
  have h: "heap w1 = heap w"
    using attemptAddress_heap [of nl c p li w] a by simp
  show ?thesis
    using assms a h
    by (auto simp: SelectAddress_body_def Let_def IPAdd_def setIP_def)
qed

lemma setIP_heap:
  "heap (setIP p x (snd (attemptAddress nl c (Some p) li w))) p = (heap w p)\<lparr>IP := x\<rparr>"
  by (simp add: setIP_def attemptAddress_heap)

lemma SelectAddress_loop_round_trip:
  assumes fail: "\<And>w. fst (attemptAddress nl c (Some p) li w) \<noteq> None"
    and range: "L \<le> r" "r \<le> U"
    and start: "heap w p = n\<lparr>IP := r\<rparr>"
    and k: "int k < U - L + 1"
  shows "\<exists>w'. for_loop k (SelectAddress_body nl c p li True r (L - 1) (U + 1)) w = Running w' \<and>
     heap w' p = n\<lparr>IP := round_trip L U r k\<rparr>"
  using k
proof (induction k)
  case 0
  then show ?case using range start by (simp add: round_trip_0)
next
  case (Suc k)
  then obtain w' where run: "for_loop k (SelectAddress_body nl c p li True r (L - 1) (U + 1)) w = Running w'"
    and cell: "heap w' p = n\<lparr>IP := round_trip L U r k\<rparr>"
    by auto
  have LU: "L \<le> U" using range by simp
  have ne: "round_trip L U r (Suc k) \<noteq> r"
    using round_trip_start_iff [OF range, of "Suc k"] Suc.prems by simp
  note w3 = SelectAddress_body_failed [OF fail, where w = w' and la = "U + 1" and fa = "L - 1" and r = r]
  have nx: "(if IP (heap w' p) + 1 = U + 1 then L - 1 + 1 else IP (heap w' p) + 1) = round_trip L U r (Suc k)"
    using cell round_trip_Suc [OF LU, of r k] by simp
  show ?case
    using run w3 ne cell unfolding nx
    by (simp add: for_loop_Suc_end sleep_def setIP_heap del: for_loop.simps)
qed

lemma SelectAddress_loop_exhausted:
  assumes fail: "\<And>w. fst (attemptAddress nl c (Some p) li w) \<noteq> None"
    and range: "L \<le> r" "r \<le> U"
    and start: "heap w p = n\<lparr>IP := r\<rparr>"
  shows "\<exists>w'. for_loop (nat (U - L + 1)) (SelectAddress_body nl c p li True r (L - 1) (U + 1)) w =
     Returned (Inl ExhaustedSpace, w')"
proof -
  obtain k where N: "nat (U - L + 1) = Suc k"
    using range by (cases "nat (U - L + 1)") auto
  then have k: "int k < U - L + 1" by linarith
  obtain w' where run: "for_loop k (SelectAddress_body nl c p li True r (L - 1) (U + 1)) w = Running w'"
    and cell: "heap w' p = n\<lparr>IP := round_trip L U r k\<rparr>"
    using SelectAddress_loop_round_trip [OF fail range start k] by blast
  have LU: "L \<le> U" using range by simp
  have eq: "round_trip L U r (Suc k) = r"
    using round_trip_start_iff [OF range, of "Suc k"] N by simp
  note w3 = SelectAddress_body_failed [OF fail, where w = w' and la = "U + 1" and fa = "L - 1" and r = r]
  have nx: "(if IP (heap w' p) + 1 = U + 1 then L - 1 + 1 else IP (heap w' p) + 1) = round_trip L U r (Suc k)"
    using cell round_trip_Suc [OF LU, of r k] by simp
  show ?thesis
    using run w3 eq unfolding nx N
    by (simp add: for_loop_Suc_end del: for_loop.simps)
qed

lemma New_loop_from_below:
  assumes fail: "\<And>m w. fst (attempt nl \<lparr>IPNet = Some m, linkIndex = li\<rparr> w) \<noteq> None"
    and LU: "L \<le> U"
  shows "\<exists>w'. for_loop (Suc k) (New_body nl li True (L - 1) (L - 1) (U + 1)) (n\<lparr>IP := L - 1\<rparr>, w) =
     Running (n\<lparr>IP := round_trip L U L k\<rparr>, w')"
proof (induction k)
  case 0
  show ?case
    using fail [of "n\<lparr>IP := L - 1\<rparr>" w] LU
    by (simp add: New_body_failed round_trip_0)
next
  case (Suc k)
  then obtain w' where run: "for_loop (Suc k) (New_body nl li True (L - 1) (L - 1) (U + 1))
      (n\<lparr>IP := L - 1\<rparr>, w) = Running (n\<lparr>IP := round_trip L U L k\<rparr>, w')"
    by auto
  have "L \<le> round_trip L U L (Suc k)"
    using round_trip_bounds [OF LU] by simp
  then have ne: "round_trip L U L (Suc k) \<noteq> L - 1" by simp
  show ?case
    using run fail [of "n\<lparr>IP := round_trip L U L k\<rparr>" w'] round_trip_Suc [OF LU, of L k] ne
    by (subst for_loop_Suc_end)
       (auto simp: New_body_failed simp del: for_loop.simps split: if_splits)
qed

lemma SelectAddress_loop_from_below:
  assumes fail: "\<And>w. fst (attemptAddress nl c (Some p) li w) \<noteq> None"
    and LU: "L \<le> U"
    and start: "heap w p = n\<lparr>IP := L - 1\<rparr>"
  shows "\<exists>w'. for_loop (Suc k) (SelectAddress_body nl c p li True (L - 1) (L - 1) (U + 1)) w =
       Running w' \<and>
     heap w' p = n\<lparr>IP := round_trip L U L k\<rparr>"
proof (induction k)
  case 0
  note w3 = SelectAddress_body_failed [OF fail, where w = w and la = "U + 1" and fa = "L - 1"
      and r = "L - 1"]
  show ?case
    using w3 LU start
    by (simp add: round_trip_0 sleep_def setIP_heap)
next
  case (Suc k)
  then obtain w' where
    run: "for_loop (Suc k) (SelectAddress_body nl c p li True (L - 1) (L - 1) (U + 1)) w = Running w'"
    and cell: "heap w' p = n\<lparr>IP := round_trip L U L k\<rparr>"
    by auto
  have "L \<le> round_trip L U L (Suc k)"
    using round_trip_bounds [OF LU] by simp
  then have ne: "round_trip L U L (Suc k) \<noteq> L - 1" by simp
  note w3 = SelectAddress_body_failed [OF fail, where w = w' and la = "U + 1" and fa = "L - 1"
      and r = "L - 1"]
  have nx: "(if IP (heap w' p) + 1 = U + 1 then L - 1 + 1 else IP (heap w' p) + 1) =
      round_trip L U L (Suc k)"
    using cell round_trip_Suc [OF LU, of L k] by simp
  show ?case
    using run w3 ne cell unfolding nx
    by (subst for_loop_Suc_end) (simp add: sleep_def setIP_heap del: for_loop.simps)
qed

lemma New_body_Returned:
  assumes "New_body nl li search start fa la t = Returned (Inl e, w')"
  shows "e = Wrapped ''address.New'' ExhaustedSpace"
  using assms
  by (cases t) (auto simp: New_body_def Let_def split: prod.splits option.splits if_splits)

lemma SelectAddress_body_Returned:
  assumes "SelectAddress_body nl c p li search start fa la t = Returned (Inl e, w')"
  shows "e = ExhaustedSpace"
  using assms
  by (auto simp: SelectAddress_body_def Let_def split: prod.splits option.splits if_splits)

lemma New_Returned_error:
  assumes "New k nl cidr li xf xl w = Returned (Inl e, w')"
  shows "(\<exists>pe. ParseIPNet nl cidr = Inl pe \<and>
            e = Wrapped ''address.New'' (Wrapped ''address.Get'' pe) \<and> w' = w) \<or>
         e = Wrapped ''address.New'' ExhaustedSpace"
proof (cases "ParseIPNet nl cidr")
  case (Inl pe)
  then show ?thesis using assms by (simp add: New_def Get_def)
next
  case (Inr n)
  then obtain body s where "for_loop k (New_body nl li (IP n = FirstAddr n) body
      (if IP n = FirstAddr n then IPAdd (FirstAddr (n\<lparr>IP := body\<rparr>)) xf else 0)
      (if IP n = FirstAddr n then IPAdd (LastAddr (n\<lparr>IP := body\<rparr>)) (go_int (-1 * xl)) else 0)) s =
      Returned (Inl e, w')"
    using assms by (auto simp: New_def Get_def Let_def split: if_splits)
  from for_loop_Returned_from [OF this, where I = "\<lambda>s. True"]
  show ?thesis using New_body_Returned by blast
qed

lemma SelectAddress_Returned_error:
  assumes "SelectAddress k nl c addr xf xl w = Returned (Inl e, w')"
  shows "e = ExhaustedSpace \<or> fst (LinkIndexFromIPNet nl addr w) = Inl e"
proof (cases "LinkIndexFromIPNet nl addr w")
  case (Pair res w1)
  show ?thesis
  proof (cases res)
    case (Inl err)
    then show ?thesis using assms Pair by (simp add: SelectAddress_def)
  next
    case (Inr li)
    then obtain p where p: "addr = Some p"
      using Pair by (cases addr) (auto simp: LinkIndexFromIPNet_def)
    obtain search start fa la s where "for_loop k (SelectAddress_body nl c p li search start fa la) s =
      Returned (Inl e, w')"
      using assms Pair Inr p by (auto simp: SelectAddress_def Let_def split: if_splits)
    from for_loop_Returned_from [OF this, where I = "\<lambda>s. True"]
    show ?thesis using SelectAddress_body_Returned by blast
  qed
qed

lemma New_body_pinned_failed:
  assumes "fst (attempt nl \<lparr>IPNet = Some m, linkIndex = li\<rparr> w) \<noteq> None"
  shows "New_body nl li False r fa la (m, w) =
     Running (m, sleep DefaultRequestedAddressSleepTime
                   (snd (attempt nl \<lparr>IPNet = Some m, linkIndex = li\<rparr> w)))"
  using assms
  by (cases "attempt nl \<lparr>IPNet = Some m, linkIndex = li\<rparr> w")
     (auto simp: New_body_def)

lemma SelectAddress_body_pinned_failed:
  assumes "fst (attemptAddress nl c (Some p) li w) \<noteq> None"
  shows "SelectAddress_body nl c p li False r fa la w =
     Running (sleep (main_DefaultRequestedAddressSleepTime c * Millisecond)
                (snd (attemptAddress nl c (Some p) li w)))"
  using assms
  by (cases "attemptAddress nl c (Some p) li w")
     (auto simp: SelectAddress_body_def)

lemma pathCount_lt_1: "pathCount rs < 1 \<longleftrightarrow> rs = []"
  by (cases rs) (auto simp: pathCount_def)

lemma pathCountTo_lt_1:
  "pathCountTo rs < 1 \<longleftrightarrow> rs = [] \<or> (\<exists>r. rs = [r] \<and> MultiPath r = [])"
  by (cases rs) (auto simp: pathCountTo_def)

lemma attempt_failed_cleanup:
  assumes "attempt nl \<lparr>IPNet = Some n, linkIndex = li\<rparr> w = (Some e, w')"
  shows "no_insertion (new_events w w') \<or> found_gone (fullLength n) (new_events w w') \<or>
      (\<exists>d. rollback_issued (hostRoute li DefaultRouteProtocol n) (new_events w w') d \<and>
           (\<forall>de. d = Some de \<longrightarrow> e = Wrapped ''a.attempt()'' (Wrapped ''a.Delete()'' de)))"
  using assms
  by (auto simp: attempt_unfold Let_def pathCount_lt_1 new_events_def no_insertion_def
      found_gone_def rollback_issued_def split: sum.splits option.splits if_splits)

lemma attemptAddress_failed_cleanup:
  assumes "attemptAddress nl c (Some p) li w = (Some e, w')"
  shows "no_insertion (new_events w w') \<or> found_gone (fullLength (heap w p)) (new_events w w') \<or>
      (\<exists>d. rollback_issued (hostRoute li (main_DefaultRouteProtocol c) (heap w p)) (new_events w w') d \<and>
           (\<forall>de. d = Some de \<longrightarrow> e = de)) \<or>
      (\<exists>r. MultiPath r = [] \<and>
           last (new_events w w') = EvRouteListFiltered (fullLength (heap w p)) (Inr [r]))"
  using assms
  by (auto simp: attemptAddress_unfold Let_def pathCountTo_lt_1 new_events_def no_insertion_def
      found_gone_def rollback_issued_def split: sum.splits option.splits if_splits)

lemma attempt_in_use_no_mutation:
  assumes "IP n \<noteq> FirstAddr n" "IP n \<noteq> LastAddr n"
    and "RouteListFiltered nl (fullLength n) (gw w) = (Inr rs, g)" and "rs \<noteq> []"
  shows "attempt nl \<lparr>IPNet = Some n, linkIndex = li\<rparr> w =
     (Some (Wrapped ''a.attempt()'' AddressInUse),
      w\<lparr>gw := g, trace := trace w @ [EvRouteListFiltered (fullLength n) (Inr rs)]\<rparr>)"
  using assms by (simp add: attempt_unfold Let_def pathCount_pos)

lemma New_first_attempt_succeeds:
  assumes parse: "ParseIPNet nl cidr = Inr n" and search: "IP n = FirstAddr n"
    and ok: "attempt nl \<lparr>IPNet = Some (n\<lparr>IP := RandAddrWithExclude nl (NetworkID n) xf xl\<rparr>),
               linkIndex = li\<rparr> w = (None, w1)"
  shows "New (Suc k) nl cidr li xf xl w =
     Returned (Inr \<lparr>IPNet = Some (n\<lparr>IP := RandAddrWithExclude nl (NetworkID n) xf xl\<rparr>),
                    linkIndex = li\<rparr>, w1)"
  using assms by (simp add: New_def Get_def Let_def New_body_def)

lemma calls_between_refl: "calls_between P w w"
  by (simp add: calls_between_def)

lemma calls_between_trans:
  "calls_between P w w' \<Longrightarrow> calls_between P w' w'' \<Longrightarrow> calls_between P w w''"
  by (auto simp: calls_between_def)

lemma calls_between_sleep: "P (EvSleep d) \<Longrightarrow> calls_between P w (sleep d w)"
  by (simp add: calls_between_def sleep_def)

lemma calls_between_setIP:
  "calls_between P w w' \<Longrightarrow> calls_between P w (setIP p x w')"
  by (simp add: calls_between_def setIP_def)

lemma attempt_on_link:
  "calls_between (on_link li) w (snd (attempt nl \<lparr>IPNet = Some n, linkIndex = li\<rparr> w))"
  by (simp add: attempt_unfold Let_def calls_between_def on_link_def hostRoute_def
      split: sum.splits option.splits)

lemma attemptAddress_on_link:
  "calls_between (on_link li) w (snd (attemptAddress nl c (Some p) li w))"
  by (simp add: attemptAddress_unfold Let_def calls_between_def on_link_def hostRoute_def
      split: sum.splits option.splits)

lemma New_body_on_link:
  "calls_between (on_link li) w (New_world (New_body nl li search r fa la (n, w)))"
proof -
  obtain res w1 where a: "attempt nl \<lparr>IPNet = Some n, linkIndex = li\<rparr> w = (res, w1)"
    by (cases "attempt nl \<lparr>IPNet = Some n, linkIndex = li\<rparr> w")
  have 1: "calls_between (on_link li) w w1"
    using attempt_on_link [of li w nl n] a by simp
  have 2: "calls_between (on_link li) w1 (sleep d w1)" for d
    by (rule calls_between_sleep) (simp add: on_link_def)
  show ?thesis
    using a 1 calls_between_trans [OF 1 2]
    by (auto simp: New_body_def Let_def split: option.splits)
qed

lemma SelectAddress_body_on_link:
  "calls_between (on_link li) w
     (SelectAddress_world (SelectAddress_body nl c p li search r fa la w))"
proof -
  obtain res w1 where a: "attemptAddress nl c (Some p) li w = (res, w1)"
    by (cases "attemptAddress nl c (Some p) li w")
  have 1: "calls_between (on_link li) w w1"
    using attemptAddress_on_link [of li w nl c p] a by simp
  have 2: "calls_between (on_link li) v (sleep d v)" for d v
    by (rule calls_between_sleep) (simp add: on_link_def)
  have 3: "calls_between (on_link li) w (setIP p x w1)" for x
    by (rule calls_between_setIP [OF 1])
  have 4: "calls_between (on_link li) w (setIP p x (setIP p y w1))" for x y
    by (rule calls_between_setIP [OF 3])
  show ?thesis
    using a 1 3 4 calls_between_trans [OF 1 2] calls_between_trans [OF 3 2]
      calls_between_trans [OF 4 2]
    by (auto simp: SelectAddress_body_def Let_def split: option.splits)
qed

lemma for_loop_New_on_link:
  "calls_between (on_link li) (snd s)
     (New_world (for_loop k (New_body nl li search r fa la) s))"
proof (induction k arbitrary: s)
  case 0
  show ?case by (simp add: calls_between_refl)
next
  case (Suc k)
  obtain n w where s: "s = (n, w)" by (cases s)
  show ?case
  proof (cases "New_body nl li search r fa la (n, w)")
    case (Running s')
    then have "calls_between (on_link li) w (snd s')"
      using New_body_on_link [of li w nl search r fa la n] by simp
    then show ?thesis
      using Suc.IH [of s'] Running s by (auto intro: calls_between_trans)
  next
    case (Returned res)
    then show ?thesis
      using New_body_on_link [of li w nl search r fa la n] s by simp
  qed
qed

lemma for_loop_SelectAddress_on_link:
  "calls_between (on_link li) s
     (SelectAddress_world (for_loop k (SelectAddress_body nl c p li search r fa la) s))"
proof (induction k arbitrary: s)
  case 0
  show ?case by (simp add: calls_between_refl)
next
  case (Suc k)
  show ?case
  proof (cases "SelectAddress_body nl c p li search r fa la s")
    case (Running s')
    then have "calls_between (on_link li) s s'"
      using SelectAddress_body_on_link [of li s nl c p search r fa la] by simp
    then show ?thesis
      using Suc.IH [of s'] Running by (auto intro: calls_between_trans)
  next
    case (Returned res)
    then show ?thesis
      using SelectAddress_body_on_link [of li s nl c p search r fa la] by simp
  qed
qed

lemma New_on_link: "calls_between (on_link li) w (New_world (New k nl cidr li xf xl w))"
proof (cases "ParseIPNet nl cidr")
  case (Inl e)
  then show ?thesis by (simp add: New_def Get_def calls_between_refl)
next
  case (Inr n)
  then show ?thesis
    using for_loop_New_on_link [where li = li and nl = nl and k = k]
    by (auto simp: New_def Get_def Let_def dest: spec)
qed


lemma firstWithoutGw_all_gw:
  "\<forall>x\<in>set routes. Gw x \<noteq> None \<Longrightarrow> firstWithoutGw routes = Inl InterfaceNotFound"
  by (induction routes) auto

lemma firstWithoutGw_found:
  "\<forall>x\<in>set pre. Gw x \<noteq> None \<Longrightarrow> Gw r = None \<Longrightarrow>
     firstWithoutGw (pre @ r # post) = Inr (LinkIndex r)"
  by (induction pre) auto

lemma SelectAddress_not_found:
  assumes "RouteGet nl (IP (heap w p)) (gw w) = (Inr routes, g1)"
    and "\<forall>x\<in>set routes. Gw x \<noteq> None"
  shows "SelectAddress k nl c (Some p) xf xl w =
     Returned (Inl InterfaceNotFound,
       w\<lparr>gw := g1, trace := trace w @ [EvRouteGet (IP (heap w p)) (Inr routes)]\<rparr>)"
  using assms
  by (simp add: SelectAddress_def LinkIndexFromIPNet_def routeGet_def firstWithoutGw_all_gw)

lemma SelectAddress_on_link:
  assumes "RouteGet nl (IP (heap w p)) (gw w) = (Inr (pre @ r # post), g1)"
    and "\<forall>x\<in>set pre. Gw x \<noteq> None" and "Gw r = None"
  shows "calls_between (on_link (LinkIndex r))
     (w\<lparr>gw := g1, trace := trace w @ [EvRouteGet (IP (heap w p)) (Inr (pre @ r # post))]\<rparr>)
     (SelectAddress_world (SelectAddress k nl c (Some p) xf xl w))"
proof -
  let ?w1 = "w\<lparr>gw := g1, trace := trace w @ [EvRouteGet (IP (heap w p)) (Inr (pre @ r # post))]\<rparr>"
  have link: "LinkIndexFromIPNet nl (Some p) w = (Inr (LinkIndex r), ?w1)"
    using assms by (simp add: LinkIndexFromIPNet_def routeGet_def firstWithoutGw_found)
  have "\<exists>search x fa la s. (s = ?w1 \<or> (\<exists>y. s = setIP p y ?w1)) \<and>
      SelectAddress k nl c (Some p) xf xl w =
        for_loop k (SelectAddress_body nl c p (LinkIndex r) search x fa la) s"
    unfolding SelectAddress_def Let_def link by (simp split: if_splits) blast
  then obtain search x fa la s where s: "s = ?w1 \<or> (\<exists>y. s = setIP p y ?w1)"
    and run: "SelectAddress k nl c (Some p) xf xl w =
        for_loop k (SelectAddress_body nl c p (LinkIndex r) search x fa la) s"
    by blast
  have "calls_between (on_link (LinkIndex r)) ?w1 s"
    using s calls_between_setIP [OF calls_between_refl] calls_between_refl by metis
  moreover have "calls_between (on_link (LinkIndex r)) s
      (SelectAddress_world (for_loop k (SelectAddress_body nl c p (LinkIndex r) search x fa la) s))"
    by (rule for_loop_SelectAddress_on_link)
  ultimately show ?thesis
    unfolding run by (rule calls_between_trans)
qed

lemma attemptAddress_success:
  assumes "attemptAddress nl c (Some p) li w = (None, w1)"
  shows "heap w1 = heap w \<and> IP (heap w p) \<noteq> FirstAddr (heap w p) \<and>
     (\<exists>rs1 rs2. trace w1 = trace w @
        [EvRouteListFiltered (fullLength (heap w p)) (Inr rs1),
         EvRouteAdd (hostRoute li (main_DefaultRouteProtocol c) (heap w p)) None,
         EvSleep (main_DefaultPropagationTimeout c * Millisecond),
         EvRouteListFiltered (fullLength (heap w p)) (Inr rs2)])"
  using assms
  by (auto simp: attemptAddress_unfold Let_def split: sum.splits option.splits if_splits)

lemma not_network_ID:
  assumes "Mask n' = Mask n" "IP n = FirstAddr n" "IP n' \<noteq> FirstAddr n'"
  shows "IP n' \<noteq> IP n"
  using assms by (auto simp: FirstAddr_def)

lemma SelectAddress_body_frame:
  assumes "SelectAddress_body nl c p li search r fa la t = Running t'"
  shows "(\<forall>a. a \<noteq> p \<longrightarrow> heap t' a = heap t a) \<and> Mask (heap t' p) = Mask (heap t p) \<and>
     (\<not> search \<longrightarrow> heap t' = heap t)"
proof -
  obtain res w1 where a: "attemptAddress nl c (Some p) li t = (res, w1)"
    by (cases "attemptAddress nl c (Some p) li t")
  have h: "heap w1 = heap t"
    using attemptAddress_heap [of nl c p li t] a by simp
  show ?thesis
    using assms a h
    by (auto simp: SelectAddress_body_def Let_def setIP_def sleep_def
        split: option.splits if_splits)
qed

lemma SelectAddress_body_success:
  assumes "SelectAddress_body nl c p li search r fa la t = Returned (Inr q, w')"
  shows "q = p \<and> attemptAddress nl c (Some p) li t = (None, w')"
  using assms
  by (cases "attemptAddress nl c (Some p) li t")
     (auto simp: SelectAddress_body_def Let_def split: option.splits if_splits)

lemma for_loop_SelectAddress_success:
  assumes run: "for_loop k (SelectAddress_body nl c p li search r fa la) s = Returned (Inr q, w')"
  shows "q = p \<and> (\<forall>a. a \<noteq> p \<longrightarrow> heap w' a = heap s a) \<and>
     Mask (heap w' p) = Mask (heap s p) \<and> (\<not> search \<longrightarrow> heap w' = heap s) \<and>
     IP (heap w' p) \<noteq> FirstAddr (heap w' p) \<and>
     (\<exists>tr rs1 rs2. trace w' = tr @
        [EvRouteListFiltered (fullLength (heap w' p)) (Inr rs1),
         EvRouteAdd (hostRoute li (main_DefaultRouteProtocol c) (heap w' p)) None,
         EvSleep (main_DefaultPropagationTimeout c * Millisecond),
         EvRouteListFiltered (fullLength (heap w' p)) (Inr rs2)])"
proof -
  let ?I = "\<lambda>t. (\<forall>a. a \<noteq> p \<longrightarrow> heap t a = heap s a) \<and> Mask (heap t p) = Mask (heap s p) \<and>
     (\<not> search \<longrightarrow> heap t = heap s)"
  have "\<exists>t. ?I t \<and> SelectAddress_body nl c p li search r fa la t = Returned (Inr q, w')"
  proof (rule for_loop_Returned_from [OF run, where I = ?I])
    show "?I s" by simp
  next
    fix t t'
    assume "?I t" and "SelectAddress_body nl c p li search r fa la t = Running t'"
    then show "?I t'"
      using SelectAddress_body_frame [of nl c p li search r fa la t t'] by auto
  qed
  then obtain t where t: "?I t"
    and ret: "SelectAddress_body nl c p li search r fa la t = Returned (Inr q, w')"
    by blast
  have q: "q = p" and a: "attemptAddress nl c (Some p) li t = (None, w')"
    using SelectAddress_body_success [OF ret] by simp_all
  from attemptAddress_success [OF a] t q show ?thesis
    by auto
qed


lemma SelectAddress_body_advance:
  assumes "SelectAddress_body nl c p li True r fa la t = Running t'"
  shows "IP (heap t' p) = (if IP (heap t p) + 1 = la then fa + 1 else IP (heap t p) + 1)"
proof -
  obtain res w1 where a: "attemptAddress nl c (Some p) li t = (res, w1)"
    by (cases "attemptAddress nl c (Some p) li t")
  have h: "heap w1 = heap t"
    using attemptAddress_heap [of nl c p li t] a by simp
  show ?thesis
    using assms a h
    by (auto simp: SelectAddress_body_def Let_def setIP_def sleep_def IPAdd_def
        split: option.splits if_splits)
qed

lemma SelectAddress_resolved:
  assumes "LinkIndexFromIPNet nl (Some p) w = (Inr li, w1)"
  shows "heap w1 = heap w \<and>
     SelectAddress k nl c (Some p) xf xl w =
       (if IP (heap w p) = FirstAddr (heap w p) then
          for_loop k (SelectAddress_body nl c p li True
              (RandAddrWithExclude nl (NetworkID (heap w p)) xf xl)
              (FirstAddr ((heap w p)\<lparr>IP := RandAddrWithExclude nl (NetworkID (heap w p)) xf xl\<rparr>) + xf)
              (LastAddr ((heap w p)\<lparr>IP := RandAddrWithExclude nl (NetworkID (heap w p)) xf xl\<rparr>)
                 + go_int (-1 * xl)))
            (setIP p (RandAddrWithExclude nl (NetworkID (heap w p)) xf xl) w1)
        else for_loop k (SelectAddress_body nl c p li False 0 0 0) w1)"
proof -
  have h: "heap w1 = heap w"
    using LinkIndexFromIPNet_heap [of nl "Some p" w] assms by simp
  show ?thesis
    using assms h by (simp add: SelectAddress_def Let_def IPAdd_def setIP_def)
qed

lemma SelectAddress_link_resolved:
  assumes "SelectAddress k nl c (Some p) xf xl w = Returned (Inr q, w') \<or>
     SelectAddress k nl c (Some p) xf xl w = Running w'"
  shows "\<exists>li w1. LinkIndexFromIPNet nl (Some p) w = (Inr li, w1)"
proof (cases "LinkIndexFromIPNet nl (Some p) w")
  case (Pair res w1)
  then show ?thesis
    using assms by (cases res) (auto simp: SelectAddress_def)
qed

lemma SelectAddress_success:
  assumes ret: "SelectAddress k nl c (Some p) xf xl w = Returned (Inr q, w')"
  shows "q = p \<and> (\<forall>a. a \<noteq> p \<longrightarrow> heap w' a = heap w a) \<and>
      Mask (heap w' p) = Mask (heap w p) \<and>
      (if IP (heap w p) = FirstAddr (heap w p) then IP (heap w' p) \<noteq> IP (heap w p)
       else heap w' = heap w) \<and>
      (\<exists>li tr rs1 rs2. trace w' = tr @
         [EvRouteListFiltered (fullLength (heap w' p)) (Inr rs1),
          EvRouteAdd (hostRoute li (main_DefaultRouteProtocol c) (heap w' p)) None,
          EvSleep (main_DefaultPropagationTimeout c * Millisecond),
          EvRouteListFiltered (fullLength (heap w' p)) (Inr rs2)])"
proof -
  obtain li w1 where link: "LinkIndexFromIPNet nl (Some p) w = (Inr li, w1)"
    using SelectAddress_link_resolved [of k nl c p xf xl w q w'] ret by blast
  note R = SelectAddress_resolved [OF link, of k c xf xl]
  show ?thesis
  proof (cases "IP (heap w p) = FirstAddr (heap w p)")
    case True
    let ?r = "RandAddrWithExclude nl (NetworkID (heap w p)) xf xl"
    obtain fa la where run: "for_loop k (SelectAddress_body nl c p li True ?r fa la) (setIP p ?r w1) =
        Returned (Inr q, w')"
      using R ret True by auto
    note S = for_loop_SelectAddress_success [OF run]
    have m: "Mask (heap w' p) = Mask (heap w p)"
      using S R by (simp add: setIP_def)
    have "IP (heap w' p) \<noteq> IP (heap w p)"
      using not_network_ID [OF m True] S by blast
    then show ?thesis
      using S R True m by (auto simp: setIP_def)
  next
    case False
    have run: "for_loop k (SelectAddress_body nl c p li False 0 0 0) w1 = Returned (Inr q, w')"
      using R ret False by auto
    note S = for_loop_SelectAddress_success [OF run]
    show ?thesis
      using S R False by auto
  qed
qed

lemma SelectAddress_first_write:
  assumes search: "IP (heap w p) = FirstAddr (heap w p)"
    and run: "SelectAddress 0 nl c (Some p) xf xl w = Running t0"
  shows "heap t0 p = (heap w p)\<lparr>IP := RandAddrWithExclude nl (NetworkID (heap w p)) xf xl\<rparr>"
proof -
  obtain li w1 where link: "LinkIndexFromIPNet nl (Some p) w = (Inr li, w1)"
    using SelectAddress_link_resolved [of 0 nl c p xf xl w _ t0] run by blast
  show ?thesis
    using SelectAddress_resolved [OF link, of 0 c xf xl] run search by (auto simp: setIP_def)
qed

lemma SelectAddress_next_write:
  assumes search: "IP (heap w p) = FirstAddr (heap w p)"
    and run: "SelectAddress k nl c (Some p) xf xl w = Running t"
    and run': "SelectAddress (Suc k) nl c (Some p) xf xl w = Running t'"
  shows "IP (heap t' p) =
        (if IP (heap t p) + 1 =
              LastAddr ((heap w p)\<lparr>IP := RandAddrWithExclude nl (NetworkID (heap w p)) xf xl\<rparr>)
                + go_int (-1 * xl)
         then FirstAddr ((heap w p)\<lparr>IP := RandAddrWithExclude nl (NetworkID (heap w p)) xf xl\<rparr>)
                + xf + 1
         else IP (heap t p) + 1)"
proof -
  let ?r = "RandAddrWithExclude nl (NetworkID (heap w p)) xf xl"
  let ?fa = "FirstAddr ((heap w p)\<lparr>IP := ?r\<rparr>) + xf"
  let ?la = "LastAddr ((heap w p)\<lparr>IP := ?r\<rparr>) + go_int (-1 * xl)"
  obtain li w1 where link: "LinkIndexFromIPNet nl (Some p) w = (Inr li, w1)"
    using SelectAddress_link_resolved [of k nl c p xf xl w _ t] run by blast
  have 1: "for_loop k (SelectAddress_body nl c p li True ?r ?fa ?la) (setIP p ?r w1) = Running t"
    using SelectAddress_resolved [OF link, of k c xf xl] run search by simp
  have 2: "for_loop (Suc k) (SelectAddress_body nl c p li True ?r ?fa ?la) (setIP p ?r w1) = Running t'"
    using SelectAddress_resolved [OF link, of "Suc k" c xf xl] run' search by simp
  have "SelectAddress_body nl c p li True ?r ?fa ?la t = Running t'"
    using 1 2 by (simp add: for_loop_Suc_end del: for_loop.simps)
  from SelectAddress_body_advance [OF this]
  show ?thesis .
qed

lemma attempt_copies_agree:
  assumes cell: "heap w p = n"
    and same: "main_DefaultRouteProtocol c = DefaultRouteProtocol"
      "main_DefaultPropagationTimeout c * Millisecond = DefaultPropagationTimeout"
    and count: "\<And>g rs g'. RouteListFiltered nl (fullLength n) g = (Inr rs, g') \<Longrightarrow>
      pathCountTo rs = pathCount rs"
  shows "snd (attemptAddress nl c (Some p) li w) = snd (attempt nl \<lparr>IPNet = Some n, linkIndex = li\<rparr> w) \<and>
     map_option cause (fst (attemptAddress nl c (Some p) li w)) =
     map_option cause (fst (attempt nl \<lparr>IPNet = Some n, linkIndex = li\<rparr> w))"
proof -
  obtain a1 g1 where q1: "RouteListFiltered nl (fullLength n) (gw w) = (a1, g1)"
    by (cases "RouteListFiltered nl (fullLength n) (gw w)")
  obtain a2 g2 where add: "RouteAdd nl (hostRoute li DefaultRouteProtocol n) g1 = (a2, g2)"
    by (cases "RouteAdd nl (hostRoute li DefaultRouteProtocol n) g1")
  obtain a3 g3 where q2: "RouteListFiltered nl (fullLength n) g2 = (a3, g3)"
    by (cases "RouteListFiltered nl (fullLength n) g2")
  obtain a4 g4 where del: "RouteDel nl (hostRoute li DefaultRouteProtocol n) g3 = (a4, g4)"
    by (cases "RouteDel nl (hostRoute li DefaultRouteProtocol n) g3")
  have c1: "pathCountTo rs = pathCount rs" if "a1 = Inr rs" for rs
    using count q1 that by simp
  have c3: "pathCountTo rs = pathCount rs" if "a3 = Inr rs" for rs
    using count q2 that by simp
  note A = attempt_eq [OF q1 add q2 del]
  note B = attemptAddress_eq [where w = w and p = p and c = c, unfolded cell same, OF q1 add q2 del]
  show ?thesis
  proof (cases a1)
    case (Inl e)
    then show ?thesis by (simp add: A B Let_def)
  next
    case rs1: (Inr rs1)
    show ?thesis
    proof (cases a2)
      case (Some e)
      then show ?thesis using rs1 c1 by (simp add: A B Let_def)
    next
      case None
      show ?thesis
      proof (cases a3)
        case (Inl e)
        then show ?thesis using rs1 None c1 by (cases a4) (simp_all add: A B Let_def)
      next
        case (Inr rs2)
        then show ?thesis using rs1 None c1 c3 by (cases a4) (simp_all add: A B Let_def)
      qed
    qed
  qed
qed

section \<open>The re-verification of an attempt\<close>

text \<open>
  Claim C1, as amended. \<^verbatim>\<open>Address.attempt\<close> on a candidate that is neither the network ID
  nor the broadcast address, when the query before the claim finds no route and the
  insertion succeeds: the attempt sleeps for the propagation timeout, queries again, and
  \<^item> with no route found it returns the route-vanished error;
  \<^item> with exactly one route of at most one path it returns success, the address record
    unchanged;
  \<^item> with more than one route, or one route of several paths, it issues the deletion of its
    own host route and returns the race-lost error when that deletion succeeds, the error of
    the deletion when it fails.
  The calls made are exactly those listed in the trace.
\<close>

theorem attempt_reverify:
  assumes valid: "IP n \<noteq> FirstAddr n" "IP n \<noteq> LastAddr n"
    and h: "h = \<lparr>IP = IP n, Mask = (snd (Mask n), snd (Mask n))\<rparr>"
    and r: "r = \<lparr>LinkIndex = li, Dst = Some h, Protocol = DefaultRouteProtocol,
                 Gw = None, MultiPath = []\<rparr>"
    and q1: "RouteListFiltered nl h (gw w) = (Inr [], g1)"
    and add: "RouteAdd nl r g1 = (None, g2)"
    and q2: "RouteListFiltered nl h g2 = (Inr rs, g3)"
    and del: "RouteDel nl r g3 = (d, g4)"
    and tr: "tr = trace w @ [EvRouteListFiltered h (Inr []), EvRouteAdd r None,
                 EvSleep DefaultPropagationTimeout, EvRouteListFiltered h (Inr rs)]"
  shows "attempt nl \<lparr>IPNet = Some n, linkIndex = li\<rparr> w =
     (if rs = [] then
        (Some (Wrapped ''a.attempt()'' RouteVanished), w\<lparr>gw := g3, trace := tr\<rparr>)
      else if length rs = 1 \<and> length (MultiPath (rs ! 0)) \<le> 1 then
        (None, w\<lparr>gw := g3, trace := tr\<rparr>)
      else
        (case d of
           None \<Rightarrow> Some (Wrapped ''a.attempt()'' RaceLost)
         | Some e \<Rightarrow> Some (Wrapped ''a.attempt()'' (Wrapped ''a.Delete()'' e)),
         w\<lparr>gw := g4, trace := tr @ [EvRouteDel r d]\<rparr>))"
  using valid q1 add q2 del unfolding h r tr
  by (cases d) (auto simp: address_defs call_defs Let_def le_Suc_eq)

text \<open>
  The rule at a concrete input: the second query finds two routes, the deletion succeeds, the
  attempt returns the race-lost error.
\<close>

theorem attempt_reverify_witness:
  "attempt (script_env parse_cidr (Inr []) 0) \<lparr>IPNet = Some cand5, linkIndex = 2\<rparr>
       (world0 race_script cand5) =
     (Some (Wrapped ''a.attempt()'' RaceLost),
      (world0 race_script cand5)\<lparr>gw := race_script\<lparr>listResps := []\<rparr>,
         trace := [EvRouteListFiltered host5 (Inr []), EvRouteAdd (claim5 2) None,
                   EvSleep 250000000,
                   EvRouteListFiltered host5 (Inr [claim5 2, plain_route 3 host5]),
                   EvRouteDel (claim5 2) None]\<rparr>)"
  using attempt_reverify [of cand5 host5 "claim5 2" 2 "script_env parse_cidr (Inr []) 0"
      "world0 race_script cand5" "race_script\<lparr>listResps := [Inr [claim5 2, plain_route 3 host5]]\<rparr>"
      "race_script\<lparr>listResps := [Inr [claim5 2, plain_route 3 host5]]\<rparr>"
      "[claim5 2, plain_route 3 host5]" "race_script\<lparr>listResps := []\<rparr>" None
      "race_script\<lparr>listResps := []\<rparr>"
      "[EvRouteListFiltered host5 (Inr []), EvRouteAdd (claim5 2) None,
        EvSleep 250000000,
        EvRouteListFiltered host5 (Inr [claim5 2, plain_route 3 host5])]"]
  by (simp add: example_defs race_script_def)

text \<open>
  The claim as the specification states it fails where the deletion fails: the query before
  the claim finds no route, the insertion succeeds, the second query finds two routes, and
  the attempt returns the error of the deletion, not the race-lost error; the host route is
  still installed.
\<close>

theorem attempt_race_lost_counterexample:
  "fst (attempt (script_env parse_cidr (Inr []) 0) \<lparr>IPNet = Some cand5, linkIndex = 2\<rparr>
          (world0 stuck_script cand5)) =
     Some (Wrapped ''a.attempt()'' (Wrapped ''a.Delete()'' (Errno 1))) \<and>
   cause (Wrapped ''a.attempt()'' (Wrapped ''a.Delete()'' (Errno 1))) \<noteq> RaceLost \<and>
   trace (snd (attempt (script_env parse_cidr (Inr []) 0) \<lparr>IPNet = Some cand5, linkIndex = 2\<rparr>
          (world0 stuck_script cand5))) =
     [EvRouteListFiltered host5 (Inr []), EvRouteAdd (claim5 2) None, EvSleep 250000000,
      EvRouteListFiltered host5 (Inr [claim5 2, plain_route 3 host5]),
      EvRouteDel (claim5 2) (Some (Errno 1))]"
  by (simp add: address_defs call_defs example_defs stuck_script_def)

section \<open>The candidates of a search and the eligible range\<close>

text \<open>
  The loop of a search keeps the range \<open>[networkID + 1 + xf, broadcast - 1 - xl]\<close>: when
  the random draw lies in it, then however many rounds the loop has made and whatever the
  environment answered, the candidate of the next attempt lies in it, and so is neither the
  network ID nor the broadcast address. This holds for \<^verbatim>\<open>address.New\<close> and for
  \<^verbatim>\<open>SelectAddress\<close>.
\<close>

lemma loop_keeps_eligible_range:
  assumes xf: "0 \<le> xf" and xl: "0 \<le> xl" "xl < 2 ^ 63"
    and search: "IP n = FirstAddr n"
    and draw: "FirstAddr n + 1 + xf \<le> RandAddrWithExclude nl (NetworkID n) xf xl"
      "RandAddrWithExclude nl (NetworkID n) xf xl \<le> LastAddr n - 1 - xl"
    and parse: "ParseIPNet nl cidr = Inr n"
    and cell: "heap w p = n"
  shows "(\<forall>k n' w'. New k nl cidr li xf xl w = Running (n', w') \<longrightarrow>
            FirstAddr n + 1 + xf \<le> IP n' \<and> IP n' \<le> LastAddr n - 1 - xl \<and>
            IP n' \<noteq> FirstAddr n \<and> IP n' \<noteq> LastAddr n \<and> Mask n' = Mask n) \<and>
         (\<forall>k w'. SelectAddress k nl c (Some p) xf xl w = Running w' \<longrightarrow>
            FirstAddr n + 1 + xf \<le> IP (heap w' p) \<and> IP (heap w' p) \<le> LastAddr n - 1 - xl \<and>
            IP (heap w' p) \<noteq> FirstAddr n \<and> IP (heap w' p) \<noteq> LastAddr n \<and>
            Mask (heap w' p) = Mask n)"
proof -
  have a: "FirstAddr n + 1 + xf \<le> IP n' \<and> IP n' \<le> LastAddr n - 1 - xl \<and>
            IP n' \<noteq> FirstAddr n \<and> IP n' \<noteq> LastAddr n \<and> Mask n' = Mask n"
    if "New k nl cidr li xf xl w = Running (n', w')" for k n' w'
    using New_candidates_in_range [OF parse search xf xl draw that] xf xl by auto
  have b: "FirstAddr n + 1 + xf \<le> IP (heap w' p) \<and> IP (heap w' p) \<le> LastAddr n - 1 - xl \<and>
            IP (heap w' p) \<noteq> FirstAddr n \<and> IP (heap w' p) \<noteq> LastAddr n \<and>
            Mask (heap w' p) = Mask n"
    if "SelectAddress k nl c (Some p) xf xl w = Running w'" for k w'
    using SelectAddress_candidates_in_range [of w p xf xl nl k c w'] that search draw xf xl cell
    by auto
  show ?thesis using a b by blast
qed

text \<open>
  The subnet 10.0.0.0/24 with one address excluded at each end and the draw 10.0.0.5, where
  every address is in use: after two rounds the candidate is 10.0.0.7.
\<close>

lemma loop_keeps_eligible_range_example:
  "(\<exists>w'. New (Suc (Suc 0)) (occupied_env parse_cidr [link2] busy 167772165) ''10.0.0.0/24'' 2 1 1
            (world0 () net24) = Running (net24\<lparr>IP := 167772167\<rparr>, w')) \<and>
   (\<exists>w'. SelectAddress (Suc (Suc 0)) (occupied_env parse_cidr [link2] busy 167772165) consts0
            (Some 0) 1 1 (world0 () net24) = Running w' \<and> heap w' 0 = net24\<lparr>IP := 167772167\<rparr>) \<and>
   FirstAddr net24 + 1 + 1 \<le> IP (net24\<lparr>IP := 167772167\<rparr>) \<and>
   IP (net24\<lparr>IP := 167772167\<rparr>) \<le> LastAddr net24 - 1 - 1"
proof -
  let ?nl = "occupied_env parse_cidr [link2] busy 167772165"
  have new: "\<exists>w'. New (Suc (Suc 0)) ?nl ''10.0.0.0/24'' 2 1 1 (world0 () net24) =
      Running (net24\<lparr>IP := 167772167\<rparr>, w')"
    by (simp add: New_def New_body_def address_defs call_defs example_defs Let_def)
  have sel: "\<exists>w'. SelectAddress (Suc (Suc 0)) ?nl consts0 (Some 0) 1 1 (world0 () net24) = Running w' \<and>
      heap w' 0 = net24\<lparr>IP := 167772167\<rparr>"
    by (simp add: SelectAddress_def SelectAddress_body_def main_defs call_defs example_defs Let_def)
  have hyps: "(0::int) \<le> 1" "(1::int) < 2 ^ 63" "IP net24 = FirstAddr net24"
    "FirstAddr net24 + 1 + 1 \<le> RandAddrWithExclude ?nl (NetworkID net24) 1 1"
    "RandAddrWithExclude ?nl (NetworkID net24) 1 1 \<le> LastAddr net24 - 1 - 1"
    "ParseIPNet ?nl ''10.0.0.0/24'' = Inr net24" "heap (world0 () net24) 0 = net24"
    by (simp_all add: example_defs)
  from loop_keeps_eligible_range [OF hyps(1) hyps(1) hyps(2-), of 2 consts0] new sel
  show ?thesis by blast
qed

text \<open>
  Claim C7 does not hold of the code. The first candidate of a search is the address that
  \<^verbatim>\<open>iputil.RandAddrWithExclude\<close> returns, and neither session compares it with the bounds
  that its loop uses afterwards. In the subnet 10.0.0.0/29 with one address excluded at each
  end the eligible range is 10.0.0.2 to 10.0.0.5. When the draw is 10.0.0.1 and the routing
  table is empty, \<^verbatim>\<open>address.New\<close> attempts 10.0.0.1, inserts its host route and returns
  it as the allocated address, and the first round of \<^verbatim>\<open>SelectAddress\<close> inserts the
  same host route.
\<close>

theorem draw_below_range_is_attempted:
  "FirstAddr net29 + 1 + 1 = 167772162 \<and> LastAddr net29 - 1 - 1 = 167772165 \<and>
   New 1 (table_env parse_cidr [link2] 167772161) ''10.0.0.0/29'' 2 1 1 (world0 [] net29) =
     Returned (Inr \<lparr>IPNet = Some (net29\<lparr>IP := 167772161\<rparr>), linkIndex = 2\<rparr>,
       (world0 [] net29)\<lparr>gw := [claim30 1],
          trace := [EvRouteListFiltered (host30 1) (Inr []), EvRouteAdd (claim30 1) None,
                    EvSleep 250000000, EvRouteListFiltered (host30 1) (Inr [claim30 1])]\<rparr>) \<and>
   (\<exists>w. SelectAddress 1 (table_env parse_cidr [link2] 167772161) consts0 (Some 0) 1 1
          (world0 [] net29) = Running w \<and>
        trace w = [EvRouteGet 167772160 (Inr [link2]),
                   EvRouteListFiltered (host30 1) (Inr []), EvRouteAdd (claim30 1) None,
                   EvSleep 250000000, EvRouteListFiltered (host30 1) (Inr [claim30 1]),
                   EvSleep 100000000])"
proof -
  have "New 1 (table_env parse_cidr [link2] 167772161) ''10.0.0.0/29'' 2 1 1 (world0 [] net29) =
     Returned (Inr \<lparr>IPNet = Some (net29\<lparr>IP := 167772161\<rparr>), linkIndex = 2\<rparr>,
       (world0 [] net29)\<lparr>gw := [claim30 1],
          trace := [EvRouteListFiltered (host30 1) (Inr []), EvRouteAdd (claim30 1) None,
                    EvSleep 250000000, EvRouteListFiltered (host30 1) (Inr [claim30 1])]\<rparr>)"
    by (simp add: New_def New_body_def address_defs call_defs example_defs Let_def
        eval_nat_numeral)
  moreover have "\<exists>w. SelectAddress 1 (table_env parse_cidr [link2] 167772161) consts0 (Some 0) 1 1
          (world0 [] net29) = Running w \<and>
        trace w = [EvRouteGet 167772160 (Inr [link2]),
                   EvRouteListFiltered (host30 1) (Inr []), EvRouteAdd (claim30 1) None,
                   EvSleep 250000000, EvRouteListFiltered (host30 1) (Inr [claim30 1]),
                   EvSleep 100000000]"
    by (simp add: SelectAddress_def SelectAddress_body_def main_defs call_defs example_defs
        Let_def eval_nat_numeral)
  moreover have "FirstAddr net29 + 1 + 1 = 167772162" "LastAddr net29 - 1 - 1 = 167772165"
    by (simp_all add: example_defs)
  ultimately show ?thesis by blast
qed

section \<open>A search over a subnet in use\<close>

text \<open>
  A search with exclusion counts \<open>xf\<close> and \<open>xl\<close> whose eligible range \<open>[L, U]\<close>
  has \<open>N\<close> addresses, whose random draw lies in that range, against an environment that
  answers every query of a destination with the same non-empty list of routes: the loop has
  not returned before its \<open>N\<close>-th round, the candidate of round \<open>k + 1\<close> is the
  \<open>k\<close>-th address of the round trip that starts at the draw, advances by one and wraps
  from \<open>U\<close> to \<open>L\<close>, and the \<open>N\<close>-th round returns the exhaustion error. The round
  trip meets every address of the range exactly once. This holds for \<^verbatim>\<open>address.New\<close> and
  for \<^verbatim>\<open>SelectAddress\<close> (once it has resolved its link index).
\<close>

lemma round_trip_from_draw_in_range:
  assumes xf: "0 \<le> xf" and xl: "0 \<le> xl" "xl < 2 ^ 63"
    and search: "IP n = FirstAddr n"
    and L: "L = FirstAddr n + 1 + xf" and U: "U = LastAddr n - 1 - xl"
    and N: "N = nat (U - L + 1)"
    and r: "r = RandAddrWithExclude nl (NetworkID n) xf xl" and range: "L \<le> r" "r \<le> U"
    and busy: "\<And>dst g. fst (RouteListFiltered nl dst g) = Inr (inuse dst)" "\<And>dst. inuse dst \<noteq> []"
    and parse: "ParseIPNet nl cidr = Inr n"
    and cell: "heap w p = n" and link: "fst (LinkIndexFromIPNet nl (Some p) w) = Inr li"
  shows
    "(\<forall>k<N. \<exists>w'. New k nl cidr li' xf xl w = Running (n\<lparr>IP := round_trip L U r k\<rparr>, w')) \<and>
     (\<exists>w'. New N nl cidr li' xf xl w =
        Returned (Inl (Wrapped ''address.New'' ExhaustedSpace), w')) \<and>
     (\<forall>k<N. \<exists>w'. SelectAddress k nl c (Some p) xf xl w = Running w' \<and>
        heap w' p = n\<lparr>IP := round_trip L U r k\<rparr>) \<and>
     (\<exists>w'. SelectAddress N nl c (Some p) xf xl w = Returned (Inl ExhaustedSpace, w')) \<and>
     round_trip L U r 0 = r \<and>
     (\<forall>k. round_trip L U r (Suc k) =
        (if round_trip L U r k = U then L else round_trip L U r k + 1)) \<and>
     (\<forall>a. L \<le> a \<and> a \<le> U \<longrightarrow> (\<exists>!k. k < N \<and> round_trip L U r k = a))"
proof -
  have LU: "L \<le> U" using range by simp
  have fa: "FirstAddr n + xf = L - 1" and la: "LastAddr n - xl = U + 1"
    using L U by simp_all
  have draw: "FirstAddr n + 1 + xf \<le> RandAddrWithExclude nl (NetworkID n) xf xl"
    "RandAddrWithExclude nl (NetworkID n) xf xl \<le> LastAddr n - 1 - xl"
    using range L U r by simp_all
  have new: "New k nl cidr li' xf xl w =
      for_loop k (New_body nl li' True r (L - 1) (U + 1)) (n\<lparr>IP := r\<rparr>, w)" for k
    using New_search_unfold [OF parse search xf xl draw, of k li' w] by (simp add: fa la r)
  obtain w1 where lk: "LinkIndexFromIPNet nl (Some p) w = (Inr li, w1)"
    using link by (cases "LinkIndexFromIPNet nl (Some p) w") auto
  have h1: "heap w1 = heap w"
    using LinkIndexFromIPNet_heap [of nl "Some p" w] lk by simp
  have sel: "SelectAddress k nl c (Some p) xf xl w =
      for_loop k (SelectAddress_body nl c p li True r (L - 1) (U + 1)) (setIP p r w1)" for k
    using SelectAddress_search_unfold [OF lk, of xf xl k c] search xf xl draw cell
    by (simp add: fa la r)
  have start: "heap (setIP p r w1) p = n\<lparr>IP := r\<rparr>"
    using h1 cell by (simp add: setIP_def)
  have fail1: "fst (attempt nl \<lparr>IPNet = Some m, linkIndex = li'\<rparr> v) \<noteq> None" for m v
    by (rule attempt_in_use [OF busy])
  have fail2: "fst (attemptAddress nl c (Some p) li v) \<noteq> None" for v
    by (rule attemptAddress_in_use [OF busy(1)])
  have k: "int k < U - L + 1" if "k < N" for k
    using that N by linarith
  have 1: "\<forall>k<N. \<exists>w'. New k nl cidr li' xf xl w = Running (n\<lparr>IP := round_trip L U r k\<rparr>, w')"
    using New_loop_round_trip [OF fail1 range k] new by simp
  have 2: "\<exists>w'. New N nl cidr li' xf xl w =
        Returned (Inl (Wrapped ''address.New'' ExhaustedSpace), w')"
    using New_loop_exhausted [OF fail1 range] new N by simp
  have 3: "\<forall>k<N. \<exists>w'. SelectAddress k nl c (Some p) xf xl w = Running w' \<and>
        heap w' p = n\<lparr>IP := round_trip L U r k\<rparr>"
    using SelectAddress_loop_round_trip [OF fail2 range start k] sel by simp
  have 4: "\<exists>w'. SelectAddress N nl c (Some p) xf xl w = Returned (Inl ExhaustedSpace, w')"
    using SelectAddress_loop_exhausted [OF fail2 range start] sel N by simp
  have 5: "round_trip L U r 0 = r"
    by (rule round_trip_0 [OF range])
  have 6: "\<forall>k. round_trip L U r (Suc k) =
        (if round_trip L U r k = U then L else round_trip L U r k + 1)"
    using round_trip_Suc [OF LU] by blast
  have 7: "\<exists>!k. k < N \<and> round_trip L U r k = a" if a: "L \<le> a" "a \<le> U" for a
  proof -
    obtain k0 where "int k0 < U - L + 1" "round_trip L U r k0 = a"
      using round_trip_surj [OF range a] by blast
    moreover have "k1 = k2" if kk: "k1 < N \<and> round_trip L U r k1 = a"
      "k2 < N \<and> round_trip L U r k2 = a" for k1 k2
      using round_trip_inj [OF LU k k, of k1 k2 r] kk by simp
    ultimately show ?thesis
      using N by (intro ex1I [of _ k0]) auto
  qed
  show ?thesis using 1 2 3 4 5 6 7 by blast
qed


text \<open>
  The subnet 10.0.0.0/29 with one address excluded at each end: the eligible range is
  10.0.0.2 to 10.0.0.5, four addresses. With the draw 10.0.0.4 the candidates are .4, .5, .2
  and .3, and the fourth failure ends the search.
\<close>

lemma round_trip_from_draw_in_range_example:
  "(\<exists>w'. New 2 (occupied_env parse_cidr [link2] busy 167772164) ''10.0.0.0/29'' 7 1 1
           (world0 () net29) = Running (net29\<lparr>IP := 167772162\<rparr>, w')) \<and>
   (\<exists>w'. New 4 (occupied_env parse_cidr [link2] busy 167772164) ''10.0.0.0/29'' 7 1 1
           (world0 () net29) = Returned (Inl (Wrapped ''address.New'' ExhaustedSpace), w')) \<and>
   (\<exists>w'. SelectAddress 2 (occupied_env parse_cidr [link2] busy 167772164) consts0 (Some 0) 1 1
           (world0 () net29) = Running w' \<and> heap w' 0 = net29\<lparr>IP := 167772162\<rparr>) \<and>
   (\<exists>w'. SelectAddress 4 (occupied_env parse_cidr [link2] busy 167772164) consts0 (Some 0) 1 1
           (world0 () net29) = Returned (Inl ExhaustedSpace, w'))"
proof -
  let ?nl = "occupied_env parse_cidr [link2] busy 167772164"
  have hyps: "(0::int) \<le> 1" "(1::int) < 2 ^ 63" "IP net29 = FirstAddr net29"
    "167772162 = FirstAddr net29 + 1 + 1" "167772165 = LastAddr net29 - 1 - 1"
    "4 = nat (167772165 - 167772162 + 1)"
    "167772164 = RandAddrWithExclude ?nl (NetworkID net29) 1 1"
    "(167772162::int) \<le> 167772164" "(167772164::int) \<le> 167772165"
    "\<And>dst g. fst (RouteListFiltered ?nl dst g) = Inr (busy dst)" "\<And>dst. busy dst \<noteq> []"
    "ParseIPNet ?nl ''10.0.0.0/29'' = Inr net29" "heap (world0 () net29) 0 = net29"
    "fst (LinkIndexFromIPNet ?nl (Some 0) (world0 () net29)) = Inr 2"
    by (simp_all add: example_defs LinkIndexFromIPNet_def routeGet_def)
  have rt: "round_trip 167772162 167772165 167772164 2 = 167772162"
    by (simp add: round_trip_def)
  note T = round_trip_from_draw_in_range [OF hyps(1) hyps(1) hyps(2-), of 7 consts0]
  have n: "\<forall>k<4. \<exists>w'. New k ?nl ''10.0.0.0/29'' 7 1 1 (world0 () net29) =
      Running (net29\<lparr>IP := round_trip 167772162 167772165 167772164 k\<rparr>, w')"
    and s: "\<forall>k<4. \<exists>w'. SelectAddress k ?nl consts0 (Some 0) 1 1 (world0 () net29) = Running w' \<and>
      heap w' 0 = net29\<lparr>IP := round_trip 167772162 167772165 167772164 k\<rparr>"
    using T by blast+
  have "\<exists>w'. New 2 ?nl ''10.0.0.0/29'' 7 1 1 (world0 () net29) =
      Running (net29\<lparr>IP := 167772162\<rparr>, w')"
    using n [rule_format, of 2] rt by simp
  moreover have "\<exists>w'. SelectAddress 2 ?nl consts0 (Some 0) 1 1 (world0 () net29) = Running w' \<and>
      heap w' 0 = net29\<lparr>IP := 167772162\<rparr>"
    using s [rule_format, of 2] rt by simp
  ultimately show ?thesis using T by blast
qed

text \<open>
  Claim C6 does not hold of the code. The session takes the address returned by
  \<^verbatim>\<open>iputil.RandAddrWithExclude\<close> as its start address without comparing it with the
  bounds of the loop, and the loop wraps to \<^verbatim>\<open>firstAddr + 1\<close>. In the subnet 10.0.0.0/29
  with one address excluded at each end the eligible range is 10.0.0.2 to 10.0.0.5, four
  addresses. With the draw 10.0.0.1 and every address in use, the first attempt is on
  10.0.0.1, and after \<open>k + 1\<close> failed attempts the session has not returned and its next
  candidate is 10.0.0.2 + \<open>k mod 4\<close>: the candidate goes round the range, never comes back
  to the start address, and the exhaustion error is not returned however many rounds are
  made. This holds for \<^verbatim>\<open>address.New\<close> and for \<^verbatim>\<open>SelectAddress\<close>.
\<close>

theorem search_from_draw_below_range_never_exhausts:
  "nat ((LastAddr net29 - 1 - 1) - (FirstAddr net29 + 1 + 1) + 1) = 4 \<and>
   New 0 (occupied_env parse_cidr [link2] busy 167772161) ''10.0.0.0/29'' 2 1 1
        (world0 () net29) = Running (net29\<lparr>IP := 167772161\<rparr>, world0 () net29) \<and>
   (\<exists>w'. New (Suc k) (occupied_env parse_cidr [link2] busy 167772161) ''10.0.0.0/29'' 2 1 1
        (world0 () net29) = Running (net29\<lparr>IP := 167772162 + int k mod 4\<rparr>, w')) \<and>
   (\<exists>w'. SelectAddress (Suc k) (occupied_env parse_cidr [link2] busy 167772161) consts0
        (Some 0) 1 1 (world0 () net29) = Running w' \<and>
      heap w' 0 = net29\<lparr>IP := 167772162 + int k mod 4\<rparr>)"
proof -
  let ?nl = "occupied_env parse_cidr [link2] busy 167772161"
  have busy: "\<And>dst g. fst (RouteListFiltered ?nl dst g) = Inr (busy dst)" "\<And>dst. busy dst \<noteq> []"
    by (simp_all add: occupied_env_def busy_def)
  have fail1: "fst (attempt ?nl \<lparr>IPNet = Some m, linkIndex = 2\<rparr> v) \<noteq> None" for m v
    by (rule attempt_in_use [OF busy])
  have fail2: "fst (attemptAddress ?nl consts0 (Some 0) 2 v) \<noteq> None" for v
    by (rule attemptAddress_in_use [OF busy(1)])
  have rt: "round_trip 167772162 167772165 167772162 k = 167772162 + int k mod 4"
    by (simp add: round_trip_def)
  have new: "New j ?nl ''10.0.0.0/29'' 2 1 1 (world0 () net29) =
      for_loop j (New_body ?nl 2 True (167772162 - 1) (167772162 - 1) (167772165 + 1))
        (net29\<lparr>IP := 167772162 - 1\<rparr>, world0 () net29)" for j
    by (simp add: New_def Get_def Let_def occupied_env_def parse_cidr_def net29_def
        FirstAddr_def LastAddr_def hostBits_def NetworkID_def IPAdd_def go_int_def)
  have sel: "SelectAddress j ?nl consts0 (Some 0) 1 1 (world0 () net29) =
      for_loop j (SelectAddress_body ?nl consts0 0 2 True (167772162 - 1) (167772162 - 1)
          (167772165 + 1))
        (setIP 0 (167772162 - 1)
           ((world0 () net29)\<lparr>trace := [EvRouteGet 167772160 (Inr [link2])]\<rparr>))" for j
    by (simp add: SelectAddress_def LinkIndexFromIPNet_def routeGet_def Let_def occupied_env_def
        world0_def net29_def link2_def setIP_def
        FirstAddr_def LastAddr_def hostBits_def NetworkID_def IPAdd_def go_int_def)
  have start: "heap (setIP 0 (167772162 - 1)
      ((world0 () net29)\<lparr>trace := [EvRouteGet 167772160 (Inr [link2])]\<rparr>)) 0 =
      net29\<lparr>IP := 167772162 - 1\<rparr>"
    by (simp add: setIP_def world0_def)
  have 0: "nat ((LastAddr net29 - 1 - 1) - (FirstAddr net29 + 1 + 1) + 1) = 4"
    by (simp add: example_defs)
  have 1: "New 0 ?nl ''10.0.0.0/29'' 2 1 1 (world0 () net29) =
      Running (net29\<lparr>IP := 167772161\<rparr>, world0 () net29)"
    unfolding new by simp
  have 2: "\<exists>w'. New (Suc k) ?nl ''10.0.0.0/29'' 2 1 1 (world0 () net29) =
      Running (net29\<lparr>IP := 167772162 + int k mod 4\<rparr>, w')"
    using New_loop_from_below [OF fail1, of 167772162 167772165 k net29 "world0 () net29"]
    unfolding new rt by simp
  have 3: "\<exists>w'. SelectAddress (Suc k) ?nl consts0 (Some 0) 1 1 (world0 () net29) = Running w' \<and>
      heap w' 0 = net29\<lparr>IP := 167772162 + int k mod 4\<rparr>"
    using SelectAddress_loop_from_below [OF fail2 _ start, of 167772165 k]
    unfolding sel rt by simp
  show ?thesis using 0 1 2 3 by blast
qed

section \<open>What a session does with the error of an attempt\<close>

text \<open>
  Claim C5, as amended. The loops of \<^verbatim>\<open>address.New\<close> and \<^verbatim>\<open>SelectAddress\<close> treat every
  error of an attempt alike, whether the candidate is the network ID or the broadcast
  address, a route mutation failed, a route query failed, or the address is in use: the
  error is dropped, and the session goes on with the next candidate in search mode and with
  the same candidate in pinned mode, after a sleep. An error that a session returns is
  either raised before the loop (the CIDR does not parse in \<^verbatim>\<open>New\<close>, the link index is
  not resolved in \<^verbatim>\<open>SelectAddress\<close>) or is the exhaustion error.
\<close>

theorem attempt_errors_never_propagate:
  "(New k nl cidr li xf xl w = Returned (Inl e, w') \<longrightarrow>
      (\<exists>pe. ParseIPNet nl cidr = Inl pe \<and>
            e = Wrapped ''address.New'' (Wrapped ''address.Get'' pe) \<and> w' = w) \<or>
      e = Wrapped ''address.New'' ExhaustedSpace) \<and>
   (SelectAddress k nl c addr xf xl w = Returned (Inl e', w'') \<longrightarrow>
      e' = ExhaustedSpace \<or> fst (LinkIndexFromIPNet nl addr w) = Inl e') \<and>
   (fst (attempt nl \<lparr>IPNet = Some m, linkIndex = li\<rparr> v) \<noteq> None \<longrightarrow>
      New_body nl li False r fa la (m, v) =
        Running (m, sleep DefaultRequestedAddressSleepTime
                      (snd (attempt nl \<lparr>IPNet = Some m, linkIndex = li\<rparr> v))) \<and>
      New_body nl li True r fa la (m, v) =
        (if (if IP m + 1 = la then fa + 1 else IP m + 1) = r
         then Returned (Inl (Wrapped ''address.New'' ExhaustedSpace),
                snd (attempt nl \<lparr>IPNet = Some m, linkIndex = li\<rparr> v))
         else Running (m\<lparr>IP := (if IP m + 1 = la then fa + 1 else IP m + 1)\<rparr>,
                sleep DefaultRequestedAddressSleepTime
                  (snd (attempt nl \<lparr>IPNet = Some m, linkIndex = li\<rparr> v))))) \<and>
   (fst (attemptAddress nl c (Some p) li v) \<noteq> None \<longrightarrow>
      SelectAddress_body nl c p li False r fa la v =
        Running (sleep (main_DefaultRequestedAddressSleepTime c * Millisecond)
                   (snd (attemptAddress nl c (Some p) li v))) \<and>
      SelectAddress_body nl c p li True r fa la v =
        (if (if IP (heap v p) + 1 = la then fa + 1 else IP (heap v p) + 1) = r
         then Returned (Inl ExhaustedSpace,
                setIP p (if IP (heap v p) + 1 = la then fa + 1 else IP (heap v p) + 1)
                  (snd (attemptAddress nl c (Some p) li v)))
         else Running (sleep (main_DefaultRequestedAddressSleepTime c * Millisecond)
                (setIP p (if IP (heap v p) + 1 = la then fa + 1 else IP (heap v p) + 1)
                  (snd (attemptAddress nl c (Some p) li v))))))"
  using New_Returned_error [of k nl cidr li xf xl w e w']
    SelectAddress_Returned_error [of k nl c addr xf xl w e' w'']
    New_body_pinned_failed [of nl m li v r fa la] New_body_failed [of nl m li v r fa la]
    SelectAddress_body_pinned_failed [of nl c p li v r fa la]
    SelectAddress_body_failed [of nl c p li v r fa la]
  by blast

text \<open>
  The subnet 10.0.0.0/30 with every address in use: both sessions return the exhaustion
  error after two rounds, and a failed attempt on the pinned address 10.0.0.5 is followed
  by a sleep and another round on the same address.
\<close>

theorem attempt_errors_never_propagate_witness:
  "(\<exists>w'. New 2 (occupied_env parse_cidr [link2] busy 167772161) ''10.0.0.0/30'' 2 0 0
           (world0 () net30) = Returned (Inl (Wrapped ''address.New'' ExhaustedSpace), w')) \<and>
   (\<exists>w'. SelectAddress 2 (occupied_env parse_cidr [link2] busy 167772161) consts0 (Some 0) 0 0
           (world0 () net30) = Returned (Inl ExhaustedSpace, w')) \<and>
   New_body (occupied_env parse_cidr [link2] busy 167772161) 2 False 0 0 0
       (cand5, world0 () cand5) =
     Running (cand5, (world0 () cand5)\<lparr>trace :=
        [EvRouteListFiltered host5 (Inr (busy host5)), EvSleep 100000000]\<rparr>) \<and>
   SelectAddress_body (occupied_env parse_cidr [link2] busy 167772161) consts0 0 2 False 0 0 0
       (world0 () cand5) =
     Running ((world0 () cand5)\<lparr>trace :=
        [EvRouteListFiltered host5 (Inr (busy host5)), EvSleep 100000000]\<rparr>)"
proof -
  let ?nl = "occupied_env parse_cidr [link2] busy 167772161"
  have "\<exists>e w'. New 2 ?nl ''10.0.0.0/30'' 2 0 0 (world0 () net30) = Returned (Inl e, w')"
    by (simp add: New_def New_body_def address_defs call_defs example_defs Let_def
        eval_nat_numeral)
  then obtain e w' where new: "New 2 ?nl ''10.0.0.0/30'' 2 0 0 (world0 () net30) =
      Returned (Inl e, w')"
    by blast
  have "\<exists>e w'. SelectAddress 2 ?nl consts0 (Some 0) 0 0 (world0 () net30) = Returned (Inl e, w')"
    by (simp add: SelectAddress_def SelectAddress_body_def main_defs call_defs example_defs
        Let_def eval_nat_numeral)
  then obtain e' w'' where sel: "SelectAddress 2 ?nl consts0 (Some 0) 0 0 (world0 () net30) =
      Returned (Inl e', w'')"
    by blast
  have parse: "ParseIPNet ?nl ''10.0.0.0/30'' = Inr net30"
    and link: "fst (LinkIndexFromIPNet ?nl (Some 0) (world0 () net30)) = Inr 2"
    by (simp_all add: example_defs LinkIndexFromIPNet_def routeGet_def)
  have a: "attempt ?nl \<lparr>IPNet = Some cand5, linkIndex = 2\<rparr> (world0 () cand5) =
      (Some (Wrapped ''a.attempt()'' AddressInUse),
       (world0 () cand5)\<lparr>trace := [EvRouteListFiltered host5 (Inr (busy host5))]\<rparr>)"
    by (simp add: address_defs call_defs example_defs)
  have b: "attemptAddress ?nl consts0 (Some 0) 2 (world0 () cand5) =
      (Some AddressInUse,
       (world0 () cand5)\<lparr>trace := [EvRouteListFiltered host5 (Inr (busy host5))]\<rparr>)"
    by (simp add: main_defs call_defs example_defs Let_def)
  note T = attempt_errors_never_propagate [where k = 2 and nl = ?nl and cidr = "''10.0.0.0/30''"
      and li = 2 and xf = 0 and xl = 0 and w = "world0 () net30" and e = e and w' = w'
      and c = consts0 and addr = "Some 0" and e' = e' and w'' = w'' and m = cand5
      and v = "world0 () cand5" and r = 0 and fa = 0 and la = 0 and p = 0]
  have "e = Wrapped ''address.New'' ExhaustedSpace"
    using T new parse by auto
  moreover have "e' = ExhaustedSpace"
    using T sel link by auto
  moreover have "New_body ?nl 2 False 0 0 0 (cand5, world0 () cand5) =
     Running (cand5, (world0 () cand5)\<lparr>trace :=
        [EvRouteListFiltered host5 (Inr (busy host5)), EvSleep 100000000]\<rparr>)"
    using T a by (simp add: sleep_def example_defs)
  moreover have "SelectAddress_body ?nl consts0 0 2 False 0 0 0 (world0 () cand5) =
     Running ((world0 () cand5)\<lparr>trace :=
        [EvRouteListFiltered host5 (Inr (busy host5)), EvSleep 100000000]\<rparr>)"
    using T b by (simp add: sleep_def example_defs)
  ultimately show ?thesis using new sel by blast
qed

text \<open>
  The claim as the specification states it fails. A search whose first insertion is
  rejected by netlink (a route mutation failure) goes on to the next address, 10.0.0.6, and
  allocates it. A request pinned to the broadcast address 10.0.0.255 is refused by every
  attempt, and after three rounds the session is still running: it has slept three times and
  returned nothing.
\<close>

theorem fatal_error_retried_counterexample:
  "New 2 (script_env parse_cidr (Inr [link2]) 167772165) ''10.0.0.0/24'' 2 1 1
       (world0 addfail_script net24) =
     Returned (Inr \<lparr>IPNet = Some (net24\<lparr>IP := 167772166\<rparr>), linkIndex = 2\<rparr>,
       (world0 addfail_script net24)\<lparr>gw := addfail_script\<lparr>listResps := [], addResps := []\<rparr>,
          trace := [EvRouteListFiltered host5 (Inr []), EvRouteAdd (claim5 2) (Some (Errno 1)),
                    EvSleep 100000000,
                    EvRouteListFiltered host6 (Inr []), EvRouteAdd (claim6 2) None,
                    EvSleep 250000000, EvRouteListFiltered host6 (Inr [claim6 2])]\<rparr>) \<and>
   New 3 (table_env parse_cidr [link2] 167772165) ''10.0.0.255/24'' 2 1 1 (world0 [] net24) =
     Running (net24\<lparr>IP := 167772415\<rparr>,
       (world0 [] net24)\<lparr>trace := [EvSleep 100000000, EvSleep 100000000, EvSleep 100000000]\<rparr>)"
  by (simp add: New_def New_body_def address_defs call_defs example_defs addfail_script_def
      Let_def eval_nat_numeral)

section \<open>What a failed attempt leaves behind\<close>

text \<open>
  Claim C2, as amended. When \<^verbatim>\<open>Address.attempt\<close> returns an error, one of three things
  holds of the calls it made: no insertion succeeded; or the last call is the second query
  and it found no route to the destination, so that the inserted route is gone already and
  nothing is deleted; or the last call is the deletion of the very host route the attempt
  inserted, and when that deletion fails, its error is the error returned. The same holds
  of \<^verbatim>\<open>attemptAddress\<close>, except when its second query returns exactly one route without
  multipath entries: nothing is stated of that case.
\<close>

theorem failed_attempt_cleanup:
  "(attempt nl \<lparr>IPNet = Some n, linkIndex = li\<rparr> w = (Some e, w') \<longrightarrow>
      no_insertion (new_events w w') \<or> found_gone (fullLength n) (new_events w w') \<or>
      (\<exists>d. rollback_issued (hostRoute li DefaultRouteProtocol n) (new_events w w') d \<and>
           (\<forall>de. d = Some de \<longrightarrow> e = Wrapped ''a.attempt()'' (Wrapped ''a.Delete()'' de)))) \<and>
   (attemptAddress nl c (Some p) li v = (Some e', v') \<longrightarrow>
      no_insertion (new_events v v') \<or> found_gone (fullLength (heap v p)) (new_events v v') \<or>
      (\<exists>d. rollback_issued (hostRoute li (main_DefaultRouteProtocol c) (heap v p))
             (new_events v v') d \<and>
           (\<forall>de. d = Some de \<longrightarrow> e' = de)) \<or>
      (\<exists>r. MultiPath r = [] \<and>
           last (new_events v v') = EvRouteListFiltered (fullLength (heap v p)) (Inr [r])))"
  using attempt_failed_cleanup [of nl n li w e w']
    attemptAddress_failed_cleanup [of nl c p li v e' v']
  by blast

text \<open>
  Both copies on a lost race: the second query finds two routes, the deletion of the host
  route is the last call and succeeds, the attempt returns the race-lost error.
\<close>

theorem failed_attempt_cleanup_witness:
  "fst (attempt (script_env parse_cidr (Inr []) 0) \<lparr>IPNet = Some cand5, linkIndex = 2\<rparr>
          (world0 race_script cand5)) = Some (Wrapped ''a.attempt()'' RaceLost) \<and>
   rollback_issued (claim5 2)
     (new_events (world0 race_script cand5)
        (snd (attempt (script_env parse_cidr (Inr []) 0) \<lparr>IPNet = Some cand5, linkIndex = 2\<rparr>
          (world0 race_script cand5)))) None \<and>
   fst (attemptAddress (script_env parse_cidr (Inr []) 0) consts0 (Some 0) 2
          (world0 race_script cand5)) = Some RaceLost \<and>
   rollback_issued (claim5 2)
     (new_events (world0 race_script cand5)
        (snd (attemptAddress (script_env parse_cidr (Inr []) 0) consts0 (Some 0) 2
          (world0 race_script cand5)))) None"
proof -
  let ?nl = "script_env parse_cidr (Inr []) 0"
  let ?w = "world0 race_script cand5"
  let ?evs = "[EvRouteListFiltered host5 (Inr []), EvRouteAdd (claim5 2) None, EvSleep 250000000,
      EvRouteListFiltered host5 (Inr [claim5 2, plain_route 3 host5]), EvRouteDel (claim5 2) None]"
  let ?w' = "?w\<lparr>gw := race_script\<lparr>listResps := []\<rparr>, trace := ?evs\<rparr>"
  have a: "attempt ?nl \<lparr>IPNet = Some cand5, linkIndex = 2\<rparr> ?w =
      (Some (Wrapped ''a.attempt()'' RaceLost), ?w')"
    by (simp add: address_defs call_defs example_defs race_script_def)
  have b: "attemptAddress ?nl consts0 (Some 0) 2 ?w = (Some RaceLost, ?w')"
    by (simp add: main_defs call_defs example_defs race_script_def Let_def)
  have ev: "new_events ?w ?w' = ?evs"
    by (simp add: new_events_def world0_def)
  have no: "\<not> no_insertion ?evs" "\<not> found_gone host5 ?evs"
    "hostRoute 2 DefaultRouteProtocol cand5 = claim5 2" "fullLength cand5 = host5"
    "hostRoute 2 (main_DefaultRouteProtocol consts0) (heap ?w 0) = claim5 2"
    "fullLength (heap ?w 0) = host5"
    "\<And>r. last ?evs \<noteq> EvRouteListFiltered host5 (Inr [r])"
    by (auto simp: no_insertion_def found_gone_def hostRoute_def fullLength_def example_defs)
  note T = failed_attempt_cleanup [where nl = ?nl and n = cand5 and li = 2 and w = ?w
      and e = "Wrapped ''a.attempt()'' RaceLost" and w' = ?w' and c = consts0 and p = 0
      and v = ?w and e' = RaceLost and v' = ?w']
  have "rollback_issued (claim5 2) ?evs None"
    using T a no unfolding ev by (auto simp: rollback_issued_def)
  then show ?thesis
    using a b ev by simp
qed

text \<open>
  The claim as the specification states it fails: when the second query fails and the
  deletion fails too, the attempt returns an error after a successful insertion that no
  call has undone.
\<close>

theorem failed_attempt_leaves_route_counterexample:
  "fst (attempt (script_env parse_cidr (Inr []) 0) \<lparr>IPNet = Some cand5, linkIndex = 2\<rparr>
          (world0 leak_script cand5)) =
     Some (Wrapped ''a.attempt()'' (Wrapped ''a.Delete()'' (Errno 1))) \<and>
   trace (snd (attempt (script_env parse_cidr (Inr []) 0) \<lparr>IPNet = Some cand5, linkIndex = 2\<rparr>
          (world0 leak_script cand5))) =
     [EvRouteListFiltered host5 (Inr []), EvRouteAdd (claim5 2) None, EvSleep 250000000,
      EvRouteListFiltered host5 (Inl (Errno 5)), EvRouteDel (claim5 2) (Some (Errno 1))]"
  by (simp add: address_defs call_defs example_defs leak_script_def)

section \<open>An address that is in use\<close>

text \<open>
  Claim C3 says that an attempt on a candidate to which the table already holds a route
  fails with the address-in-use error and changes nothing in the table.
  \<^verbatim>\<open>Address.attempt\<close> does so (lemma \<open>attempt_in_use_no_mutation\<close>).
  \<^verbatim>\<open>attemptAddress\<close> does not: \<^verbatim>\<open>numRoutesTo\<close> returns the length of the multipath list
  of a single route, which is 0 for a plain route, so the address counts as free. Below, the
  table holds one plain route to 10.0.0.5 installed by another host. \<^verbatim>\<open>attemptAddress\<close>
  inserts its own route, finds two routes, deletes its route and returns the race-lost
  error; \<^verbatim>\<open>Address.attempt\<close> on the same input makes the one query and returns the
  address-in-use error.
\<close>

theorem attemptAddress_misses_single_route:
  "attemptAddress (table_env parse_cidr [link2] 0) consts0 (Some 0) 2
       (world0 [plain_route 3 host5] cand5) =
     (Some RaceLost,
      (world0 [plain_route 3 host5] cand5)\<lparr>trace :=
         [EvRouteListFiltered host5 (Inr [plain_route 3 host5]),
          EvRouteAdd (claim5 2) None, EvSleep 250000000,
          EvRouteListFiltered host5 (Inr [plain_route 3 host5, claim5 2]),
          EvRouteDel (claim5 2) None]\<rparr>) \<and>
   attempt (table_env parse_cidr [link2] 0) \<lparr>IPNet = Some cand5, linkIndex = 2\<rparr>
       (world0 [plain_route 3 host5] cand5) =
     (Some (Wrapped ''a.attempt()'' AddressInUse),
      (world0 [plain_route 3 host5] cand5)\<lparr>trace :=
         [EvRouteListFiltered host5 (Inr [plain_route 3 host5])]\<rparr>)"
  by (simp add: main_defs address_defs call_defs example_defs Let_def)

section \<open>The two copies of the protocol\<close>

text \<open>
  Claim C4 says that the free functions and the methods behave alike on every input. They
  do not, because \<^verbatim>\<open>numRoutesTo\<close> and \<^verbatim>\<open>Address.numRoutes\<close> count a single plain route
  differently (0 and 1). Below, both sessions search the subnet 10.0.0.0/30 on an empty
  table, with the same link index and the same draw 10.0.0.1. \<^verbatim>\<open>address.New\<close> inserts
  the route to 10.0.0.1, finds it alone and returns the address. \<^verbatim>\<open>SelectAddress\<close> makes
  the same calls, takes its own route for a vanished one, goes on to 10.0.0.2, does the
  same there, and returns the exhaustion error; both routes stay in the table. Where no
  query returns a single plain route, an attempt of the one copy makes the calls of the
  other and returns an error of the same class (lemma \<open>attempt_copies_agree\<close>).
\<close>

theorem copies_differ_on_own_route:
  "New 1 (table_env parse_cidr [link2] 167772161) ''10.0.0.0/30'' 2 0 0 (world0 [] net30) =
     Returned (Inr \<lparr>IPNet = Some (net30\<lparr>IP := 167772161\<rparr>), linkIndex = 2\<rparr>,
       (world0 [] net30)\<lparr>gw := [claim30 1],
          trace := [EvRouteListFiltered (host30 1) (Inr []), EvRouteAdd (claim30 1) None,
                    EvSleep 250000000, EvRouteListFiltered (host30 1) (Inr [claim30 1])]\<rparr>) \<and>
   SelectAddress 2 (table_env parse_cidr [link2] 167772161) consts0 (Some 0) 0 0
       (world0 [] net30) =
     Returned (Inl ExhaustedSpace,
       (world0 [] net30)\<lparr>gw := [claim30 1, claim30 2],
          trace := [EvRouteGet 167772160 (Inr [link2]),
                    EvRouteListFiltered (host30 1) (Inr []), EvRouteAdd (claim30 1) None,
                    EvSleep 250000000, EvRouteListFiltered (host30 1) (Inr [claim30 1]),
                    EvSleep 100000000,
                    EvRouteListFiltered (host30 2) (Inr []), EvRouteAdd (claim30 2) None,
                    EvSleep 250000000, EvRouteListFiltered (host30 2) (Inr [claim30 2])],
          heap := (\<lambda>p. net30)(0 := net30\<lparr>IP := 167772161\<rparr>)\<rparr>)"
  by (simp add: New_def New_body_def SelectAddress_def SelectAddress_body_def main_defs
      address_defs call_defs example_defs Let_def eval_nat_numeral)

section \<open>Exclusion counts that leave no eligible address\<close>

text \<open>
  Claim C8 does not hold of the code. Neither session checks that the exclusion counts leave
  an eligible address; what it attempts first is the address that
  \<^verbatim>\<open>iputil.RandAddrWithExclude\<close> returns. In the subnet 10.0.0.0/30 with one address
  excluded at each end no address is eligible: the range would run from 10.0.0.2 to
  10.0.0.1. When the draw is 10.0.0.1 and the routing table is empty, \<^verbatim>\<open>address.New\<close>
  does not fail: it attempts 10.0.0.1, inserts its host route and returns it as the
  allocated address.
\<close>

theorem empty_range_allocates_the_draw:
  "LastAddr net30 - 1 - 1 < FirstAddr net30 + 1 + 1 \<and>
   New 1 (table_env parse_cidr [link2] 167772161) ''10.0.0.0/30'' 2 1 1 (world0 [] net30) =
     Returned (Inr \<lparr>IPNet = Some (net30\<lparr>IP := 167772161\<rparr>), linkIndex = 2\<rparr>,
       (world0 [] net30)\<lparr>gw := [claim30 1],
          trace := [EvRouteListFiltered (host30 1) (Inr []), EvRouteAdd (claim30 1) None,
                    EvSleep 250000000, EvRouteListFiltered (host30 1) (Inr [claim30 1])]\<rparr>)"
  by (simp add: New_def New_body_def address_defs call_defs example_defs Let_def eval_nat_numeral)

section \<open>Where the link index comes from\<close>

text \<open>
  Claim C9, as amended. \<^verbatim>\<open>SelectAddress\<close> has no link index of its own and always
  resolves it: it asks netlink for the routes to the input address and takes the link index
  of the first route without a gateway; every route it then inserts or deletes is on that
  link. When no returned route is without a gateway it returns the interface-not-found
  error, and the lookup is the only call it has made. \<^verbatim>\<open>address.New\<close> takes the link index
  from its caller and never resolves it: it makes no link lookup, and every route it inserts
  or deletes is on the caller's link.
\<close>

theorem link_index_resolution:
  "(RouteGet nl (IP (heap w p)) (gw w) = (Inr routes, g') \<and> (\<forall>x\<in>set routes. Gw x \<noteq> None) \<longrightarrow>
      SelectAddress k nl c (Some p) xf xl w =
        Returned (Inl InterfaceNotFound,
          w\<lparr>gw := g', trace := trace w @ [EvRouteGet (IP (heap w p)) (Inr routes)]\<rparr>)) \<and>
   (RouteGet nl (IP (heap w p)) (gw w) = (Inr (pre @ r # post), g') \<and>
    (\<forall>x\<in>set pre. Gw x \<noteq> None) \<and> Gw r = None \<longrightarrow>
      calls_between (on_link (LinkIndex r))
        (w\<lparr>gw := g', trace := trace w @ [EvRouteGet (IP (heap w p)) (Inr (pre @ r # post))]\<rparr>)
        (SelectAddress_world (SelectAddress k nl c (Some p) xf xl w))) \<and>
   calls_between (on_link li) w (New_world (New k nl cidr li xf xl w))"
  using SelectAddress_not_found [of nl w p routes g' k c xf xl]
    SelectAddress_on_link [of nl w p pre r post g' k c xf xl]
    New_on_link [of li w k nl cidr xf xl]
  by blast


text \<open>
  A link lookup that returns only a route through a gateway ends \<^verbatim>\<open>SelectAddress\<close> with
  the interface-not-found error after that one call. A lookup that returns that route and
  then a directly attached route on link 2 makes every later insertion and deletion carry
  link 2. \<^verbatim>\<open>New\<close> with link 7 makes no lookup.
\<close>

theorem link_index_resolution_witness:
  "SelectAddress 3 (table_env parse_cidr [via_gw] 167772165) consts0 (Some 0) 1 1
       (world0 [] net24) =
     Returned (Inl InterfaceNotFound,
       (world0 [] net24)\<lparr>trace := [EvRouteGet 167772160 (Inr [via_gw])]\<rparr>) \<and>
   calls_between (on_link 2)
     ((world0 [] net24)\<lparr>trace := [EvRouteGet 167772160 (Inr [via_gw, link2])]\<rparr>)
     (SelectAddress_world
        (SelectAddress 3 (table_env parse_cidr [via_gw, link2] 167772165) consts0 (Some 0) 1 1
           (world0 [] net24))) \<and>
   calls_between (on_link 7) (world0 [] net24)
     (New_world (New 3 (table_env parse_cidr [via_gw, link2] 167772165) ''10.0.0.0/24'' 7 1 1
        (world0 [] net24)))"
proof -
  let ?w = "world0 [] net24"
  let ?nl1 = "table_env parse_cidr [via_gw] 167772165"
  let ?nl2 = "table_env parse_cidr [via_gw, link2] 167772165"
  have h1: "RouteGet ?nl1 (IP (heap ?w 0)) (gw ?w) = (Inr [via_gw], []) \<and>
      (\<forall>x\<in>set [via_gw]. Gw x \<noteq> None)"
    by (simp add: example_defs)
  have h2: "RouteGet ?nl2 (IP (heap ?w 0)) (gw ?w) = (Inr ([via_gw] @ link2 # []), []) \<and>
      (\<forall>x\<in>set [via_gw]. Gw x \<noteq> None) \<and> Gw link2 = None"
    by (simp add: example_defs)
  have w: "?w\<lparr>gw := [], trace := trace ?w @ [EvRouteGet (IP (heap ?w 0)) (Inr rs)]\<rparr> =
      ?w\<lparr>trace := [EvRouteGet 167772160 (Inr rs)]\<rparr>" for rs
    by (simp add: example_defs)
  have l: "LinkIndex link2 = 2"
    by (simp add: example_defs)
  note T1 = link_index_resolution [where nl = ?nl1 and w = ?w and p = 0 and routes = "[via_gw]"
      and g' = "[]" and k = 3 and c = consts0 and xf = 1 and xl = 1
      and pre = "[]" and r = via_gw and post = "[]" and li = 7 and cidr = "''10.0.0.0/24''"]
  note T2 = link_index_resolution [where nl = ?nl2 and w = ?w and p = 0 and pre = "[via_gw]"
      and routes = "[via_gw, link2]"
      and r = link2 and post = "[]" and g' = "[]" and k = 3 and c = consts0 and xf = 1 and xl = 1
      and li = 7 and cidr = "''10.0.0.0/24''"]
  note a = T1 [THEN conjunct1, THEN mp, OF h1]
  note b = T2 [THEN conjunct2, THEN conjunct1, THEN mp, OF h2]
  have "SelectAddress 3 ?nl1 consts0 (Some 0) 1 1 ?w =
     Returned (Inl InterfaceNotFound, ?w\<lparr>trace := [EvRouteGet 167772160 (Inr [via_gw])]\<rparr>)"
    using a unfolding w by simp
  moreover have "calls_between (on_link 2)
     (?w\<lparr>trace := [EvRouteGet 167772160 (Inr [via_gw, link2])]\<rparr>)
     (SelectAddress_world (SelectAddress 3 ?nl2 consts0 (Some 0) 1 1 ?w))"
    using b unfolding w l by simp
  moreover have "calls_between (on_link 7) ?w
     (New_world (New 3 ?nl2 ''10.0.0.0/24'' 7 1 1 ?w))"
    by (rule T2 [THEN conjunct2, THEN conjunct2])
  ultimately show ?thesis by blast
qed

text \<open>
  The claim as the specification states it fails for \<^verbatim>\<open>address.New\<close>. The command line
  passes the link index \<open>-1\<close> when it was given none (\<^verbatim>\<open>li := -1\<close> in \<^verbatim>\<open>main\<close>).
  \<^verbatim>\<open>New\<close> looks nothing up, although a lookup would answer with link 2, and inserts a
  host route on link \<open>-1\<close>.
\<close>

theorem link_index_not_resolved_counterexample:
  "New 1 (table_env parse_cidr [link2] 167772165) ''10.0.0.0/24'' (-1) 1 1 (world0 [] net24) =
     Returned (Inr \<lparr>IPNet = Some cand5, linkIndex = -1\<rparr>,
       (world0 [] net24)\<lparr>gw := [claim5 (-1)],
          trace := [EvRouteListFiltered host5 (Inr []), EvRouteAdd (claim5 (-1)) None,
                    EvSleep 250000000, EvRouteListFiltered host5 (Inr [claim5 (-1)])]\<rparr>)"
  by (simp add: New_def New_body_def address_defs call_defs example_defs Let_def)

section \<open>SelectAddress writes through its argument\<close>

text \<open>
  Claim C10. \<^verbatim>\<open>SelectAddress\<close> returns the pointer it was passed, and its loop works on
  the caller's structure. When it returns successfully, the result is the argument; no
  other structure has changed and the mask is the one passed in; in search mode the
  structure holds an address other than the subnet address originally passed, in pinned mode
  it is unchanged; and the address it holds is the allocated one, the destination of the
  last insertion, which succeeded and was followed by the wait and the second query. In
  search mode the structure is overwritten with the random draw before the first attempt,
  and every further round of the loop writes the next candidate into it.
\<close>

theorem SelectAddress_writes_through_its_argument:
  "(SelectAddress k nl c (Some p) xf xl w = Returned (Inr q, w') \<longrightarrow>
      q = p \<and> (\<forall>a. a \<noteq> p \<longrightarrow> heap w' a = heap w a) \<and>
      Mask (heap w' p) = Mask (heap w p) \<and>
      (if IP (heap w p) = FirstAddr (heap w p) then IP (heap w' p) \<noteq> IP (heap w p)
       else heap w' = heap w) \<and>
      (\<exists>li tr rs1 rs2. trace w' = tr @
         [EvRouteListFiltered (fullLength (heap w' p)) (Inr rs1),
          EvRouteAdd (hostRoute li (main_DefaultRouteProtocol c) (heap w' p)) None,
          EvSleep (main_DefaultPropagationTimeout c * Millisecond),
          EvRouteListFiltered (fullLength (heap w' p)) (Inr rs2)])) \<and>
   (IP (heap w p) = FirstAddr (heap w p) \<and>
    SelectAddress 0 nl c (Some p) xf xl w = Running t0 \<longrightarrow>
      heap t0 p = (heap w p)\<lparr>IP := RandAddrWithExclude nl (NetworkID (heap w p)) xf xl\<rparr>) \<and>
   (IP (heap w p) = FirstAddr (heap w p) \<and>
    SelectAddress k nl c (Some p) xf xl w = Running t \<and>
    SelectAddress (Suc k) nl c (Some p) xf xl w = Running t' \<longrightarrow>
      IP (heap t' p) =
        (if IP (heap t p) + 1 =
              LastAddr ((heap w p)\<lparr>IP := RandAddrWithExclude nl (NetworkID (heap w p)) xf xl\<rparr>)
                + go_int (-1 * xl)
         then FirstAddr ((heap w p)\<lparr>IP := RandAddrWithExclude nl (NetworkID (heap w p)) xf xl\<rparr>)
                + xf + 1
         else IP (heap t p) + 1))"
  using SelectAddress_success [of k nl c p xf xl w q w']
    SelectAddress_first_write [of w p nl c xf xl t0]
    SelectAddress_next_write [of w p k nl c xf xl t t']
  by blast

text \<open>
  A search of 10.0.0.0/30 that starts at 10.0.0.1 and succeeds on 10.0.0.2: the caller
  passed a structure holding 10.0.0.0; it holds 10.0.0.1 before the first attempt and
  10.0.0.2 when the call returns the pointer to it. Other structures are untouched.
\<close>

theorem SelectAddress_writes_through_its_argument_witness:
  "(\<exists>w'. SelectAddress 2 (script_env parse_cidr (Inr [link2]) 167772161) consts0 (Some 0) 0 0
           (world0 grant_script net30) = Returned (Inr 0, w') \<and>
         heap w' 0 = net30\<lparr>IP := 167772162\<rparr> \<and> heap w' 1 = net30) \<and>
   (\<exists>t0. SelectAddress 0 (script_env parse_cidr (Inr [link2]) 167772161) consts0 (Some 0) 0 0
           (world0 grant_script net30) = Running t0 \<and>
         heap t0 0 = net30\<lparr>IP := 167772161\<rparr>) \<and>
   IP (heap (world0 grant_script net30) 0) = 167772160"
proof -
  let ?nl = "script_env parse_cidr (Inr [link2]) 167772161"
  let ?w = "world0 grant_script net30"
  have "\<exists>q w'. SelectAddress 2 ?nl consts0 (Some 0) 0 0 ?w = Returned (Inr q, w') \<and>
      heap w' 0 = net30\<lparr>IP := 167772162\<rparr>"
    by (simp add: SelectAddress_def SelectAddress_body_def main_defs call_defs example_defs
        grant_script_def Let_def eval_nat_numeral)
  then obtain q w' where ret: "SelectAddress 2 ?nl consts0 (Some 0) 0 0 ?w = Returned (Inr q, w')"
    and cell: "heap w' 0 = net30\<lparr>IP := 167772162\<rparr>"
    by blast
  have "\<exists>t0. SelectAddress 0 ?nl consts0 (Some 0) 0 0 ?w = Running t0"
    by (simp add: SelectAddress_def main_defs call_defs example_defs Let_def)
  then obtain t0 where run: "SelectAddress 0 ?nl consts0 (Some 0) 0 0 ?w = Running t0"
    by blast
  have search: "IP (heap ?w 0) = FirstAddr (heap ?w 0)"
    and w: "heap ?w 0 = net30" "heap ?w 1 = net30" "IP (heap ?w 0) = 167772160"
    and r: "\<And>n. RandAddrWithExclude ?nl n 0 0 = 167772161"
    by (simp_all add: example_defs)
  note T = SelectAddress_writes_through_its_argument [where k = 2 and nl = ?nl and c = consts0
      and p = 0 and xf = 0 and xl = 0 and w = ?w and q = q and w' = w' and t0 = t0
      and t = t0 and t' = t0]
  note A = T [THEN conjunct1, THEN mp, OF ret]
  note B = T [THEN conjunct2, THEN conjunct1, THEN mp, OF conjI [OF search run]]
  have "q = 0" and "heap w' 1 = heap ?w 1"
    using A by simp_all
  moreover have "heap t0 0 = net30\<lparr>IP := 167772161\<rparr>"
    using B unfolding r w(1) .
  ultimately show ?thesis
    using ret cell run w by simp
qed

end
